theory Spec2Isabelle
  imports
    Complex_Main
    "HOL-Library.Word"
    "HOL-Library.Multiset"
    "HOL-Library.List_Lexorder"
    "HOL-Library.AList"
begin

section \<open>Strings of the host language\<close>

text \<open>
  A string of the source is a sequence of UTF-16 code units; the regular expression of
  \<open>sanitizeTextInput\<close> (no \<open>u\<close> flag) and \<open>trim\<close> both work on code units. String
  literals of the source are all ASCII and are written through \<open>js\<close>.
\<close>

type_synonym jschar = "16 word"
type_synonym jsstring = "jschar list"

definition js :: "string \<Rightarrow> jsstring" where
  "js s = map (\<lambda>c. of_nat (of_char c)) s"

subsection \<open>shared/sanitizers.ts\<close>

text \<open>
  \<^verbatim>\<open>value.replace(/[<>"'`]/g, '').trim()\<close>:
  the character class holds the code units 0x3C, 0x3E, 0x22, 0x27 and 0x60.
\<close>

definition isHazard :: "jschar \<Rightarrow> bool" where
  "isHazard c \<longleftrightarrow> c = 0x3C \<or> c = 0x3E \<or> c = 0x22 \<or> c = 0x27 \<or> c = 0x60"

text \<open>
  \<open>String.prototype.trim\<close> removes WhiteSpace and LineTerminator code points from both
  ends: TAB, LF, VT, FF, CR, SP, NBSP, U+1680, U+2000 to U+200A, LS, PS, U+202F, U+205F,
  U+3000 and the byte order mark U+FEFF.
\<close>

definition isWhiteSpace :: "jschar \<Rightarrow> bool" where
  "isWhiteSpace c \<longleftrightarrow>
     c = 0x09 \<or> c = 0x0A \<or> c = 0x0B \<or> c = 0x0C \<or> c = 0x0D \<or> c = 0x20 \<or> c = 0xA0 \<or>
     c = 0x1680 \<or> (0x2000 \<le> c \<and> c \<le> 0x200A) \<or> c = 0x2028 \<or> c = 0x2029 \<or>
     c = 0x202F \<or> c = 0x205F \<or> c = 0x3000 \<or> c = 0xFEFF"

definition trim :: "jsstring \<Rightarrow> jsstring" where
  "trim s = rev (dropWhile isWhiteSpace (rev (dropWhile isWhiteSpace s)))"

definition sanitizeTextInput :: "jsstring \<Rightarrow> jsstring" where
  "sanitizeTextInput v = trim (filter (\<lambda>c. \<not> isHazard c) v)"

section \<open>Stored documents and the domain model (App.tsx)\<close>

text \<open>
  A document of the backing store is untyped at run time: a field may hold null, a
  boolean, a number, a string, a timestamp, an array or a nested map. Reading a field
  that is absent gives \<open>undefined\<close>, modelled by \<open>None\<close>. No number enters a
  computation of the code modelled here, so a number is carried as an integer.
\<close>

datatype jsval =
    JNull
  | JBool bool
  | JNum int
  | JStr jsstring
  | JTimestamp int int
  | JArr "jsval list"
  | JObj "(jsstring \<times> jsval) list"

type_synonym document = "(jsstring \<times> jsval) list"
type_synonym jsobject = "jsstring \<rightharpoonup> jsval"

datatype exn = TypeError | StoreError | FetchError | WebhookStatus nat

text \<open>The operator \<open>??\<close>: the right operand replaces \<open>undefined\<close> and \<open>null\<close> only.\<close>

fun coalesce :: "jsval option \<Rightarrow> jsval \<Rightarrow> jsval" where
  "coalesce None d = d"
| "coalesce (Some JNull) d = d"
| "coalesce (Some v) d = v"

text \<open>
  \<open>sanitizeTextInput\<close> applied to a run-time value: only a string has the method
  \<open>replace\<close>; on any other value the call \<open>value.replace(...)\<close> raises a TypeError.
\<close>

fun sanitizeValue :: "jsval \<Rightarrow> exn + jsstring" where
  "sanitizeValue (JStr s) = Inr (sanitizeTextInput s)"
| "sanitizeValue v = Inl TypeError"

text \<open>The decimal rendering of an array index, the property key of an element.\<close>

fun indexKey :: "nat \<Rightarrow> jsstring" where
  "indexKey n =
     (if n < 10 then [of_nat (48 + n)] else indexKey (n div 10) @ [of_nat (48 + n mod 10)])"

text \<open>
  The own enumerable properties that an object spread \<open>{...v}\<close> copies: the fields of a
  map, the indexed elements of an array, the indexed characters of a string, both fields
  of a timestamp, and nothing for null, a boolean or a number.
\<close>

fun ownProps :: "jsval \<Rightarrow> (jsstring \<times> jsval) list" where
  "ownProps (JObj kvs) = kvs"
| "ownProps (JArr vs) = zip (map indexKey [0..<length vs]) vs"
| "ownProps (JStr s) = zip (map indexKey [0..<length s]) (map (\<lambda>c. JStr [c]) s)"
| "ownProps (JTimestamp sec nano) = [(js ''seconds'', JNum sec), (js ''nanoseconds'', JNum nano)]"
| "ownProps v = []"

definition defaultStep :: document where
  "defaultStep =
     [(js ''status'', JStr (js ''pending'')), (js ''conflictReason'', JNull), (js ''data'', JNull)]"

text \<open>\<open>{ ...defaultStep, ...step }\<close>: the properties of \<open>step\<close> override the defaults.\<close>

definition mergeStep :: "jsval \<Rightarrow> jsobject" where
  "mergeStep step = map_of defaultStep ++ map_of (ownProps step)"

record ProcurementProcess =
  id' :: jsstring
  supplierName :: jsstring
  status :: jsval
  createdAt :: jsval
  order :: jsobject
  confirmation :: jsobject
  delivery :: jsobject

definition buildProcess :: "document \<Rightarrow> jsstring \<Rightarrow> exn + ProcurementProcess" where
  "buildProcess data fallbackId =
     (let orderStep = coalesce (map_of data (js ''order'')) (JObj []);
          confirmationStep = coalesce (map_of data (js ''confirmation'')) (JObj []);
          deliveryStep = coalesce (map_of data (js ''delivery'')) (JObj [])
      in case sanitizeValue (coalesce (map_of data (js ''id'')) (JStr fallbackId)) of
           Inl e \<Rightarrow> Inl e
         | Inr i \<Rightarrow>
        (case sanitizeValue (coalesce (map_of data (js ''supplierName'')) (JStr (js ''Unbekannt''))) of
           Inl e \<Rightarrow> Inl e
         | Inr n \<Rightarrow>
             Inr \<lparr> id' = i,
                   supplierName = n,
                   status = coalesce (map_of data (js ''status'')) (JStr (js ''open'')),
                   createdAt = coalesce (map_of data (js ''createdAt'')) JNull,
                   order = mergeStep orderStep,
                   confirmation = mergeStep confirmationStep,
                   delivery = mergeStep deliveryStep \<rparr>))"

definition sanitizeStage :: "jsstring \<Rightarrow> jsstring option" where
  "sanitizeStage stage =
     (if stage = js ''confirmation'' \<or> stage = js ''delivery'' then Some stage else None)"

section \<open>The synchronizer (useProcurementData)\<close>

datatype connection = Connecting | Connected | Error

record sync_state =
  items :: "ProcurementProcess list"
  connectionStatus :: connection

text \<open>\<open>snapshot.docs.map((d) => buildProcess(d.data(), d.id))\<close>: the first exception ends the map.\<close>

fun buildAll :: "(jsstring \<times> document) list \<Rightarrow> exn + ProcurementProcess list" where
  "buildAll [] = Inr []"
| "buildAll ((key, data) # ds) =
     (case buildProcess data key of
        Inl e \<Rightarrow> Inl e
      | Inr p \<Rightarrow> (case buildAll ds of Inl e \<Rightarrow> Inl e | Inr ps \<Rightarrow> Inr (p # ps)))"

text \<open>
  \<open>Array.prototype.sort\<close> with a comparator is a stable sort: \<open>a\<close> is placed before \<open>b\<close>
  when \<open>cmp a b < 0\<close>, and elements that compare equal keep their order. For a
  comparator that is consistent (a total preorder) the result is fixed by these two
  conditions, whatever algorithm the host runs; it is computed here by stable insertion.
\<close>

fun insertBy :: "('a \<Rightarrow> 'a \<Rightarrow> int) \<Rightarrow> 'a \<Rightarrow> 'a list \<Rightarrow> 'a list" where
  "insertBy cmp x [] = [x]"
| "insertBy cmp x (y # ys) = (if cmp x y \<le> 0 then x # y # ys else y # insertBy cmp x ys)"

definition sortBy :: "('a \<Rightarrow> 'a \<Rightarrow> int) \<Rightarrow> 'a list \<Rightarrow> 'a list" where
  "sortBy cmp xs = foldr (insertBy cmp) xs []"

text \<open>
  The snapshot listener: the connection state is set first, then the documents are
  mapped and sorted, then the collection is replaced. An exception of the mapping leaves
  the listener after the first update only.

  The comparator is \<open>(a, b) => b.id.localeCompare(a.id)\<close>. \<open>String.prototype.localeCompare\<close>
  is the collation of the host's locale and not code of the repository, so it is a
  parameter of the listener and of the hook: nothing is assumed of it in the definitions.
\<close>

definition onSnapshotNext ::
  "(jsstring \<Rightarrow> jsstring \<Rightarrow> int) \<Rightarrow> (jsstring \<times> document) list \<Rightarrow> sync_state
     \<Rightarrow> exn option \<times> sync_state" where
  "onSnapshotNext localeCompare docs st =
     (let st1 = st\<lparr>connectionStatus := Connected\<rparr>
      in case buildAll docs of
           Inl e \<Rightarrow> (Some e, st1)
         | Inr processes \<Rightarrow>
             (None, st1\<lparr>items := sortBy (\<lambda>a b. localeCompare (id' b) (id' a)) processes\<rparr>))"

definition onSnapshotError :: "sync_state \<Rightarrow> sync_state" where
  "onSnapshotError st = st\<lparr>connectionStatus := Error\<rparr>"

datatype notification = Snapshot "(jsstring \<times> document) list" | ListenerError

fun notify :: "(jsstring \<Rightarrow> jsstring \<Rightarrow> int) \<Rightarrow> sync_state \<Rightarrow> notification \<Rightarrow> sync_state" where
  "notify localeCompare st (Snapshot docs) = snd (onSnapshotNext localeCompare docs st)"
| "notify localeCompare st ListenerError = onSnapshotError st"

text \<open>
  The hook: the collection starts empty and the connection state (owned by \<open>App\<close>) starts
  as \<open>connecting\<close>. Without services the effect reports \<open>error\<close> and subscribes to nothing;
  with services every notification of the subscription runs one of the two listeners.
\<close>

definition useProcurementData ::
  "(jsstring \<Rightarrow> jsstring \<Rightarrow> int) \<Rightarrow> bool \<Rightarrow> notification list \<Rightarrow> sync_state" where
  "useProcurementData localeCompare services ns =
     (if \<not> services then \<lparr>items = [], connectionStatus = Error\<rparr>
      else foldl (notify localeCompare) \<lparr>items = [], connectionStatus = Connecting\<rparr> ns)"

section \<open>The backing store\<close>

text \<open>
  The store holds the documents of the collection \<open>procurement_processes\<close> by key.
  \<open>updateDoc\<close> is a partial field write: each key of the payload is a field path whose
  segments are separated by dots; the last segment is set inside the nested map that the
  other segments name, and a segment that holds no map is replaced by a map. The write
  is refused when the document does not exist or when the backend rejects it.
\<close>

type_synonym store = "jsstring \<rightharpoonup> document"

fun splitDots :: "jsstring \<Rightarrow> jsstring list" where
  "splitDots [] = [[]]"
| "splitDots (c # cs) =
     (if c = 0x2E then [] # splitDots cs
      else (case splitDots cs of [] \<Rightarrow> [[c]] | w # ws \<Rightarrow> (c # w) # ws))"

fun setPath :: "jsstring list \<Rightarrow> jsval \<Rightarrow> document \<Rightarrow> document" where
  "setPath [] v d = d"
| "setPath [k] v d = AList.update k v d"
| "setPath (k # ks) v d =
     AList.update k
       (JObj (setPath ks v (case map_of d k of Some (JObj m) \<Rightarrow> m | _ \<Rightarrow> []))) d"

definition applyUpdates :: "(jsstring \<times> jsval) list \<Rightarrow> document \<Rightarrow> document" where
  "applyUpdates ups d = fold (\<lambda>(k, v). setPath (splitDots k) v) ups d"

definition updateDoc :: "store \<Rightarrow> jsstring \<Rightarrow> (jsstring \<times> jsval) list \<Rightarrow> bool \<Rightarrow> store option" where
  "updateDoc db key ups accepted =
     (case db key of
        None \<Rightarrow> None
      | Some d \<Rightarrow> if accepted then Some (db(key \<mapsto> applyUpdates ups d)) else None)"

section \<open>The upload handler (handleFileUpload)\<close>

text \<open>
  What the handler takes from outside: the clock, the draw of \<open>Math.random()\<close> (a double
  in the interval from 0 to 1, taken as the rational number it denotes; no double lies
  between the literal \<open>0.7\<close> and 7/10, so the comparison with 7/10 decides the same), the
  outcome of \<open>fetch\<close>, and whether the backend accepts the first and the second write.
\<close>

datatype fetch_result = TransportFailure | Response nat

record env =
  now :: jsval
  random :: rat
  fetchResult :: fetch_result
  acceptsFirst :: bool
  acceptsSecond :: bool

record jsfile =
  name :: jsstring
  content :: "8 word list"

record webhooks =
  confirmationUrl :: jsstring
  deliveryUrl :: jsstring

record app =
  processes :: "ProcurementProcess list"
  selectedId :: "jsstring option"
  uploadingStage :: "jsstring option"
  services :: bool
  webhookUrls :: webhooks

datatype effect =
    SetUploadingStage "jsstring option"
  | UpdateDoc jsstring "(jsstring \<times> jsval) list"
  | Fetch jsstring jsfile jsstring jsstring
  | ConsoleError
  | Alert

text \<open>\<open>response.ok\<close>: the status code is in the range 200 to 299.\<close>

definition ok :: "nat \<Rightarrow> bool" where
  "ok code \<longleftrightarrow> 200 \<le> code \<and> code \<le> 299"

definition analyzingWrite :: "env \<Rightarrow> jsstring \<Rightarrow> jsfile \<Rightarrow> (jsstring \<times> jsval) list" where
  "analyzingWrite e stage file =
     [(stage @ js ''.status'', JStr (js ''analyzing'')),
      (stage @ js ''.fileName'', JStr (sanitizeTextInput (name file))),
      (stage @ js ''.uploadedAt'', now e)]"

definition fallbackWrite :: "bool \<Rightarrow> jsstring \<Rightarrow> (jsstring \<times> jsval) list" where
  "fallbackWrite isConflict stage =
     [(stage @ js ''.status'', JStr (if isConflict then js ''conflict'' else js ''verified'')),
      (stage @ js ''.conflictReason'',
         if isConflict then JStr (js ''Menge weicht ab (Simulierter Fehler)'') else JNull),
      (js ''status'',
         JStr (if isConflict then js ''conflict''
               else if stage = js ''delivery'' then js ''completed'' else js ''open''))]"

text \<open>\<open>const isConflict = Math.random() > 0.7\<close>, as a function of the draw.\<close>

definition isConflict :: "rat \<Rightarrow> bool" where
  "isConflict draw \<longleftrightarrow> draw > 7 / 10"

text \<open>
  The body of the \<open>try\<close> block: the effects issued, the store afterwards and the
  exception that left the block, if any.
\<close>

definition uploadTry ::
  "env \<Rightarrow> store \<Rightarrow> jsstring \<Rightarrow> jsstring \<Rightarrow> jsfile \<Rightarrow> jsstring \<Rightarrow> effect list \<times> store \<times> exn option" where
  "uploadTry e db sanitizedId stage file webhookUrl =
     (let w1 = analyzingWrite e stage file in
      case updateDoc db sanitizedId w1 (acceptsFirst e) of
        None \<Rightarrow> ([UpdateDoc sanitizedId w1], db, Some StoreError)
      | Some db1 \<Rightarrow>
          if webhookUrl \<noteq> [] then
            (let request = Fetch webhookUrl file sanitizedId stage in
             case fetchResult e of
               TransportFailure \<Rightarrow> ([UpdateDoc sanitizedId w1, request], db1, Some FetchError)
             | Response code \<Rightarrow>
                 if \<not> ok code
                 then ([UpdateDoc sanitizedId w1, request], db1, Some (WebhookStatus code))
                 else ([UpdateDoc sanitizedId w1, request], db1, None))
          else
            (let w2 = fallbackWrite (isConflict (random e)) stage
             in case updateDoc db1 sanitizedId w2 (acceptsSecond e) of
                  None \<Rightarrow> ([UpdateDoc sanitizedId w1, UpdateDoc sanitizedId w2], db1, Some StoreError)
                | Some db2 \<Rightarrow> ([UpdateDoc sanitizedId w1, UpdateDoc sanitizedId w2], db2, None)))"

text \<open>
  \<open>stage === 'confirmation' ? webhookUrls.confirmation : webhookUrls.delivery\<close>
\<close>

definition webhookUrl :: "app \<Rightarrow> jsstring \<Rightarrow> jsstring" where
  "webhookUrl a stage =
     (if stage = js ''confirmation'' then confirmationUrl (webhookUrls a)
      else deliveryUrl (webhookUrls a))"

text \<open>\<open>catch\<close> logs and alerts; \<open>finally\<close> clears the marker.\<close>

definition handleFileUpload ::
  "app \<Rightarrow> env \<Rightarrow> store \<Rightarrow> jsfile option \<Rightarrow> jsstring \<Rightarrow> effect list \<times> store" where
  "handleFileUpload a e db eventFile rawStage =
     (case sanitizeStage rawStage of
        None \<Rightarrow> ([], db)
      | Some stage \<Rightarrow>
     (case eventFile of
        None \<Rightarrow> ([], db)
      | Some file \<Rightarrow>
     (case (case selectedId a of
              None \<Rightarrow> None
            | Some s \<Rightarrow> if s = [] then None else Some (sanitizeTextInput s)) of
        None \<Rightarrow> ([], db)
      | Some sanitizedId \<Rightarrow>
          if sanitizedId = [] \<or> \<not> services a then ([], db)
          else
            (case uploadTry e db sanitizedId stage file (webhookUrl a stage) of
               (effects, db', thrown) \<Rightarrow>
                 (SetUploadingStage (Some stage) # effects
                    @ (case thrown of None \<Rightarrow> [] | Some err \<Rightarrow> [ConsoleError, Alert])
                    @ [SetUploadingStage None],
                  db')))))"

text \<open>The marker after a run: the argument of the last \<open>setUploadingStage\<close>, if any.\<close>

fun marker :: "jsstring option \<Rightarrow> effect list \<Rightarrow> jsstring option" where
  "marker m [] = m"
| "marker m (SetUploadingStage m' # es) = marker m' es"
| "marker m (ev # es) = marker m es"

section \<open>The delivery section of the detail view\<close>

text \<open>
  The detail view shows the selected process. Its delivery section renders a notice
  while the confirmation is not verified, the file input while the delivery is pending
  or in conflict (a spinner instead while a delivery upload is in flight), and the
  receipt otherwise. The file input, where it is rendered, calls
  \<open>handleFileUpload(event, 'delivery')\<close>.
\<close>

definition selectedProcess :: "app \<Rightarrow> ProcurementProcess option" where
  "selectedProcess a = find (\<lambda>p. Some (id' p) = selectedId a) (processes a)"

datatype control = Notice | FileInput | Spinner | Receipt

definition deliverySection :: "ProcurementProcess \<Rightarrow> jsstring option \<Rightarrow> control" where
  "deliverySection p uploading =
     (if confirmation p (js ''status'') \<noteq> Some (JStr (js ''verified'')) then Notice
      else if delivery p (js ''status'') = Some (JStr (js ''pending''))
              \<or> delivery p (js ''status'') = Some (JStr (js ''conflict''))
      then (if uploading = Some (js ''delivery'') then Spinner else FileInput)
      else Receipt)"

section \<open>Properties named by the specification\<close>

text \<open>A field that \<open>sanitizeTextInput\<close> accepts after \<open>??\<close>: absent, null or a string.\<close>

definition textual :: "jsval option \<Rightarrow> bool" where
  "textual field =
     (case field of None \<Rightarrow> True | Some JNull \<Rightarrow> True | Some (JStr s) \<Rightarrow> True | _ \<Rightarrow> False)"

text \<open>
  The specification's default for a stage: \<open>{status: pending, conflictReason: null, data: null}\<close>,
  overridden by the properties of the stage object that is present.
\<close>

definition stageDefaulted :: "jsval option \<Rightarrow> jsobject \<Rightarrow> bool" where
  "stageDefaulted field step =
     (let defaults = [js ''status'' \<mapsto> JStr (js ''pending''),
                      js ''conflictReason'' \<mapsto> JNull, js ''data'' \<mapsto> JNull]
      in case field of
           None \<Rightarrow> step = defaults
         | Some JNull \<Rightarrow> step = defaults
         | Some v \<Rightarrow>
             \<forall>k. step k = (case map_of (ownProps v) k of Some x \<Rightarrow> Some x | None \<Rightarrow> defaults k))"

text \<open>
  A snapshot whose documents all carry an \<open>id\<close> and a \<open>supplierName\<close> that are absent,
  null or a string: the snapshots on which the mapping raises nothing.
\<close>

definition well_typed :: "(jsstring \<times> document) list \<Rightarrow> bool" where
  "well_typed docs \<longleftrightarrow>
     (\<forall>(key, data) \<in> set docs.
        textual (map_of data (js ''id'')) \<and> textual (map_of data (js ''supplierName'')))"

text \<open>
  A comparison is consistent when "compares as less or equal" is a total preorder: any
  two strings are comparable, and the relation is transitive. This is what a collation
  provides; it does not say which strings come first.
\<close>

definition consistent :: "(jsstring \<Rightarrow> jsstring \<Rightarrow> int) \<Rightarrow> bool" where
  "consistent cmp \<longleftrightarrow>
     (\<forall>a b. cmp a b \<le> 0 \<or> cmp b a \<le> 0) \<and>
     (\<forall>a b c. cmp a b \<le> 0 \<and> cmp b c \<le> 0 \<longrightarrow> cmp a c \<le> 0)"

text \<open>The comparison puts \<open>a\<close> strictly before \<open>b\<close>, asked either way round.\<close>

definition precedes :: "(jsstring \<Rightarrow> jsstring \<Rightarrow> int) \<Rightarrow> jsstring \<Rightarrow> jsstring \<Rightarrow> bool" where
  "precedes cmp a b \<longleftrightarrow> cmp a b < 0 \<and> cmp b a > 0"

text \<open>Two strings that the comparison does not tell apart.\<close>

definition tied :: "(jsstring \<Rightarrow> jsstring \<Rightarrow> int) \<Rightarrow> jsstring \<Rightarrow> jsstring \<Rightarrow> bool" where
  "tied cmp a b \<longleftrightarrow> cmp a b \<le> 0 \<and> cmp b a \<le> 0"

text \<open>
  A call of the handler that passes its guards: the stage name is one of the two stages,
  a file is present, a process is selected, its sanitized id is not empty and the
  services exist. The sanitized id names the document that is written.
\<close>

definition submits :: "app \<Rightarrow> jsfile option \<Rightarrow> jsstring \<Rightarrow> jsstring \<Rightarrow> jsfile \<Rightarrow> jsstring \<Rightarrow> bool" where
  "submits a eventFile rawStage stage file sanitizedId \<longleftrightarrow>
     sanitizeStage rawStage = Some stage \<and> eventFile = Some file \<and>
     (case selectedId a of None \<Rightarrow> False | Some s \<Rightarrow> sanitizedId = sanitizeTextInput s) \<and>
     sanitizedId \<noteq> [] \<and> services a"

text \<open>
  The precedence rule of the specification for the aggregate status: conflict when the
  confirmation or the delivery is in conflict, otherwise completed when the delivery is
  verified, otherwise open.
\<close>

definition aggregateRule :: "ProcurementProcess \<Rightarrow> jsval" where
  "aggregateRule p =
     (if confirmation p (js ''status'') = Some (JStr (js ''conflict''))
         \<or> delivery p (js ''status'') = Some (JStr (js ''conflict''))
      then JStr (js ''conflict'')
      else if delivery p (js ''status'') = Some (JStr (js ''verified''))
      then JStr (js ''completed'')
      else JStr (js ''open''))"

text \<open>The status of a stage as the store holds it in a document.\<close>

definition storedStageStatus :: "document \<Rightarrow> jsstring \<Rightarrow> jsval option" where
  "storedStageStatus d stage =
     (case map_of d stage of Some (JObj m) \<Rightarrow> map_of m (js ''status'') | _ \<Rightarrow> None)"

section \<open>Concrete inputs\<close>

text \<open>
  One selected process PO-1 whose document holds a supplier name only, a file, and the
  outside world with a given draw and a given answer of the endpoint.
\<close>

text \<open>
  A sample comparison to instantiate the theorems about the hook at: the three-way
  comparison of two strings by code units. It is one consistent comparison among many
  and is not taken to be the host's collation.
\<close>

fun codeUnitCompare :: "jsstring \<Rightarrow> jsstring \<Rightarrow> int" where
  "codeUnitCompare [] [] = 0"
| "codeUnitCompare [] (y # ys) = - 1"
| "codeUnitCompare (x # xs) [] = 1"
| "codeUnitCompare (x # xs) (y # ys) =
     (if x < y then - 1 else if y < x then 1 else codeUnitCompare xs ys)"

definition demoFile :: jsfile where
  "demoFile = \<lparr>name = js ''ab.pdf'', content = []\<rparr>"

definition demoEnv :: "rat \<Rightarrow> fetch_result \<Rightarrow> env" where
  "demoEnv draw answer =
     \<lparr>now = JTimestamp 1700000000 0, random = draw, fetchResult = answer,
      acceptsFirst = True, acceptsSecond = True\<rparr>"

definition demoProcess :: ProcurementProcess where
  "demoProcess =
     \<lparr>id' = js ''PO-1'', supplierName = js ''ACME'', status = JStr (js ''open''),
      createdAt = JNull, order = map_of defaultStep, confirmation = map_of defaultStep,
      delivery = map_of defaultStep\<rparr>"

definition demoApp :: "jsstring \<Rightarrow> app" where
  "demoApp url =
     \<lparr>processes = [demoProcess], selectedId = Some (js ''PO-1''), uploadingStage = None,
      services = True, webhookUrls = \<lparr>confirmationUrl = url, deliveryUrl = url\<rparr>\<rparr>"

definition demoStore :: store where
  "demoStore = [js ''PO-1'' \<mapsto> [(js ''supplierName'', JStr (js ''ACME''))]]"

section \<open>Sanitizer\<close>

lemma dropWhile_rtrim:
  assumes "xs = [] \<or> \<not> P (hd xs)"
  shows "dropWhile P (rev (dropWhile P (rev xs))) = rev (dropWhile P (rev xs))"
proof (cases "dropWhile P (rev xs) = []")
  case True
  show ?thesis unfolding True by simp
next
  case False
  then obtain x where x: "x \<in> set (rev xs)" "\<not> P x"
    by (auto simp: dropWhile_eq_Nil_conv)
  then have ne: "xs \<noteq> []" by auto
  from x have "last (dropWhile P (rev xs)) = last (rev xs)"
    by (rule dropWhile_last)
  with ne have "last (dropWhile P (rev xs)) = hd xs"
    by (simp add: last_rev)
  with False have "hd (rev (dropWhile P (rev xs))) = hd xs"
    by (simp add: hd_rev)
  with assms ne have "\<not> P (hd (rev (dropWhile P (rev xs))))" by simp
  with False show ?thesis
    by (simp add: dropWhile_eq_self_iff)
qed

lemma trim_idem: "trim (trim s) = trim s"
proof -
  let ?u = "dropWhile isWhiteSpace s"
  have "?u = [] \<or> \<not> isWhiteSpace (hd ?u)"
    using hd_dropWhile [of isWhiteSpace s] by blast
  then have "dropWhile isWhiteSpace (trim s) = trim s"
    unfolding trim_def by (rule dropWhile_rtrim)
  then show ?thesis
    by (simp add: trim_def)
qed

lemma set_trim: "set (trim s) \<subseteq> set s"
proof
  fix c assume "c \<in> set (trim s)"
  then have "c \<in> set (dropWhile isWhiteSpace (rev (dropWhile isWhiteSpace s)))"
    by (simp add: trim_def)
  then have "c \<in> set (rev (dropWhile isWhiteSpace s))"
    by (rule set_dropWhileD)
  then show "c \<in> set s"
    by (auto dest: set_dropWhileD)
qed

lemma sanitize_no_hazard: "c \<in> set (sanitizeTextInput x) \<Longrightarrow> \<not> isHazard c"
  using set_trim [of "filter (\<lambda>c. \<not> isHazard c) x"]
  by (auto simp: sanitizeTextInput_def)

lemma sanitize_idem: "sanitizeTextInput (sanitizeTextInput x) = sanitizeTextInput x"
proof -
  have "filter (\<lambda>c. \<not> isHazard c) (sanitizeTextInput x) = sanitizeTextInput x"
    by (rule filter_True) (simp add: sanitize_no_hazard)
  then show ?thesis
    by (simp add: sanitizeTextInput_def trim_idem)
qed

text \<open>
  C8. Sanitizing twice is the same as sanitizing once, and the sanitized string holds
  none of the five characters \<open><\<close>, \<open>>\<close>, double quote, single quote and backtick.
\<close>

theorem sanitize_idempotent_and_strips:
  "sanitizeTextInput (sanitizeTextInput x) = sanitizeTextInput x \<and>
   set (sanitizeTextInput x) \<inter> set (js ''<>\"'`'') = {}"
proof -
  have "set (js ''<>\"'`'') = {c. isHazard c}"
    by (auto simp: js_def isHazard_def)
  moreover have "set (sanitizeTextInput x) \<inter> {c. isHazard c} = {}"
    using sanitize_no_hazard by auto
  ultimately show ?thesis
    by (simp add: sanitize_idem)
qed

section \<open>Domain model\<close>

lemma sanitizeValue_textual:
  "textual field \<Longrightarrow> \<exists>s. sanitizeValue (coalesce field (JStr d)) = Inr s"
  by (cases field; cases "the field") (auto simp: textual_def)

lemma map_of_defaultStep:
  "map_of defaultStep =
     [js ''status'' \<mapsto> JStr (js ''pending''), js ''conflictReason'' \<mapsto> JNull, js ''data'' \<mapsto> JNull]"
  by (rule ext) (simp add: defaultStep_def js_def)

lemma mergeStep_defaulted: "stageDefaulted field (mergeStep (coalesce field (JObj [])))"
proof (cases field)
  case None
  then show ?thesis
    by (simp add: stageDefaulted_def mergeStep_def map_of_defaultStep)
next
  case (Some v)
  then show ?thesis
    by (cases v)
      (auto simp: stageDefaulted_def mergeStep_def map_of_defaultStep map_add_def Let_def
            split: option.splits)
qed

lemma buildProcess_textual:
  assumes "textual (map_of data (js ''id''))"
    and "textual (map_of data (js ''supplierName''))"
  obtains i n where
    "buildProcess data fallbackId =
       Inr \<lparr> id' = i, supplierName = n,
             status = coalesce (map_of data (js ''status'')) (JStr (js ''open'')),
             createdAt = coalesce (map_of data (js ''createdAt'')) JNull,
             order = mergeStep (coalesce (map_of data (js ''order'')) (JObj [])),
             confirmation = mergeStep (coalesce (map_of data (js ''confirmation'')) (JObj [])),
             delivery = mergeStep (coalesce (map_of data (js ''delivery'')) (JObj [])) \<rparr>"
proof -
  from assms(1) obtain i
    where i: "sanitizeValue (coalesce (map_of data (js ''id'')) (JStr fallbackId)) = Inr i"
    using sanitizeValue_textual by blast
  from assms(2) obtain n
    where n: "sanitizeValue (coalesce (map_of data (js ''supplierName'')) (JStr (js ''Unbekannt''))) = Inr n"
    using sanitizeValue_textual by blast
  show ?thesis
    by (rule that [of i n]) (simp add: buildProcess_def i n)
qed

text \<open>
  C4, as the code has it. When the fields \<open>id\<close> and \<open>supplierName\<close> of the record are each
  absent, null or a string, \<open>buildProcess\<close> returns a process: an absent or null status
  becomes \<open>open\<close>, and each of the three stages is the default step overridden by the
  properties of the stage value that is present.
\<close>

theorem buildProcess_defaults:
  assumes "textual (map_of data (js ''id''))"
    and "textual (map_of data (js ''supplierName''))"
  shows "\<exists>p. buildProcess data fallbackId = Inr p
    \<and> (map_of data (js ''status'') \<in> {None, Some JNull} \<longrightarrow> status p = JStr (js ''open''))
    \<and> stageDefaulted (map_of data (js ''order'')) (order p)
    \<and> stageDefaulted (map_of data (js ''confirmation'')) (confirmation p)
    \<and> stageDefaulted (map_of data (js ''delivery'')) (delivery p)"
proof -
  from assms obtain i n where
    "buildProcess data fallbackId =
       Inr \<lparr> id' = i, supplierName = n,
             status = coalesce (map_of data (js ''status'')) (JStr (js ''open'')),
             createdAt = coalesce (map_of data (js ''createdAt'')) JNull,
             order = mergeStep (coalesce (map_of data (js ''order'')) (JObj [])),
             confirmation = mergeStep (coalesce (map_of data (js ''confirmation'')) (JObj [])),
             delivery = mergeStep (coalesce (map_of data (js ''delivery'')) (JObj [])) \<rparr>"
    by (rule buildProcess_textual)
  then show ?thesis
    by (auto simp: mergeStep_defaulted)
qed

theorem buildProcess_defaults_witness:
  "\<exists>p. buildProcess
          [(js ''supplierName'', JStr (js ''ACME'')),
           (js ''confirmation'', JObj [(js ''status'', JStr (js ''verified''))])]
          (js ''PO-1'') = Inr p
    \<and> status p = JStr (js ''open'')
    \<and> order p (js ''status'') = Some (JStr (js ''pending''))
    \<and> confirmation p (js ''status'') = Some (JStr (js ''verified''))
    \<and> confirmation p (js ''conflictReason'') = Some JNull"
proof -
  let ?data = "[(js ''supplierName'', JStr (js ''ACME'')),
                (js ''confirmation'', JObj [(js ''status'', JStr (js ''verified''))])]"
  have id: "textual (map_of ?data (js ''id''))"
    by (simp add: textual_def js_def)
  have supplier: "textual (map_of ?data (js ''supplierName''))"
    by (simp add: textual_def js_def)
  from buildProcess_defaults [OF id supplier, of "js ''PO-1''"]
  obtain p where p: "buildProcess ?data (js ''PO-1'') = Inr p"
    and "map_of ?data (js ''status'') \<in> {None, Some JNull} \<longrightarrow> status p = JStr (js ''open'')"
    and "stageDefaulted (map_of ?data (js ''order'')) (order p)"
    and "stageDefaulted (map_of ?data (js ''confirmation'')) (confirmation p)"
    by blast
  then have "status p = JStr (js ''open'')"
    and "order p (js ''status'') = Some (JStr (js ''pending''))"
    and "confirmation p (js ''status'') = Some (JStr (js ''verified''))"
    and "confirmation p (js ''conflictReason'') = Some JNull"
    by (simp_all add: stageDefaulted_def js_def)
  with p show ?thesis by blast
qed

text \<open>
  C4, as stated, fails: a record whose \<open>id\<close> is a number makes \<open>sanitizeTextInput\<close> call
  \<open>replace\<close> on a number, which raises.
\<close>

theorem buildProcess_throws_on_numeric_id:
  "buildProcess [(js ''id'', JNum 5)] (js ''PO-1'') = Inl TypeError"
  by (simp add: buildProcess_def js_def)

section \<open>Synchronizer\<close>

lemma mset_insertBy: "mset (insertBy cmp x ys) = add_mset x (mset ys)"
  by (induction ys) auto

lemma mset_sortBy: "mset (sortBy cmp xs) = mset xs"
  by (induction xs) (auto simp: sortBy_def mset_insertBy)

lemma set_insertBy: "set (insertBy cmp x ys) = insert x (set ys)"
  by (induction ys) auto

lemma sorted_insertBy:
  assumes total: "\<And>a b. \<not> c a b \<le> 0 \<Longrightarrow> c b a \<le> 0"
    and trans: "\<And>a b z. c a b \<le> 0 \<Longrightarrow> c b z \<le> 0 \<Longrightarrow> c a z \<le> 0"
  shows "sorted_wrt (\<lambda>a b. c a b \<le> 0) ys \<Longrightarrow> sorted_wrt (\<lambda>a b. c a b \<le> 0) (insertBy c x ys)"
proof (induction ys)
  case Nil
  show ?case by simp
next
  case (Cons y ys)
  from Cons.prems have tail: "sorted_wrt (\<lambda>a b. c a b \<le> 0) ys"
    and head: "\<And>z. z \<in> set ys \<Longrightarrow> c y z \<le> 0"
    by simp_all
  show ?case
  proof (cases "c x y \<le> 0")
    case True
    have "c x z \<le> 0" if "z \<in> set ys" for z
      using True head [OF that] by (rule trans)
    with True Cons.prems show ?thesis by simp
  next
    case False
    then have "c y x \<le> 0" by (rule total)
    moreover have "sorted_wrt (\<lambda>a b. c a b \<le> 0) (insertBy c x ys)"
      using tail by (rule Cons.IH)
    ultimately show ?thesis
      using False head by (simp add: set_insertBy)
  qed
qed

lemma consistent_total:
  assumes "consistent cmp"
  shows "cmp a b \<le> 0 \<or> cmp b a \<le> 0"
proof -
  from assms have "\<forall>a b. cmp a b \<le> 0 \<or> cmp b a \<le> 0"
    unfolding consistent_def by (rule conjunct1)
  then have "\<forall>b. cmp a b \<le> 0 \<or> cmp b a \<le> 0" by (rule spec)
  then show ?thesis by (rule spec)
qed

lemma consistent_trans:
  assumes "consistent cmp" and "cmp a b \<le> 0" and "cmp b c \<le> 0"
  shows "cmp a c \<le> 0"
proof -
  from assms(1) have "\<forall>a b c. cmp a b \<le> 0 \<and> cmp b c \<le> 0 \<longrightarrow> cmp a c \<le> 0"
    unfolding consistent_def by (rule conjunct2)
  then have "\<forall>b c. cmp a b \<le> 0 \<and> cmp b c \<le> 0 \<longrightarrow> cmp a c \<le> 0" by (rule spec)
  then have "\<forall>c. cmp a b \<le> 0 \<and> cmp b c \<le> 0 \<longrightarrow> cmp a c \<le> 0" by (rule spec)
  then have "cmp a b \<le> 0 \<and> cmp b c \<le> 0 \<longrightarrow> cmp a c \<le> 0" by (rule spec)
  moreover from assms(2,3) have "cmp a b \<le> 0 \<and> cmp b c \<le> 0" by (rule conjI)
  ultimately show ?thesis by (rule mp)
qed

lemma sorted_sortBy:
  fixes xs :: "ProcurementProcess list"
  assumes "consistent cmp"
  shows "sorted_wrt (\<lambda>a b. cmp (id' b) (id' a) \<le> 0) (sortBy (\<lambda>a b. cmp (id' b) (id' a)) xs)"
proof (induction xs)
  case Nil
  show ?case by (simp add: sortBy_def)
next
  case (Cons x xs)
  let ?c = "\<lambda>(a :: ProcurementProcess) (b :: ProcurementProcess). cmp (id' b) (id' a)"
  have total: "?c b a \<le> 0" if "\<not> ?c a b \<le> 0" for a b
    using consistent_total [OF assms, of "id' b" "id' a"] that by simp
  have trans: "?c a z \<le> 0" if "?c a b \<le> 0" "?c b z \<le> 0" for a b z
    using assms that(2,1) by (rule consistent_trans)
  have "sorted_wrt (\<lambda>a b. ?c a b \<le> 0) (insertBy ?c x (sortBy ?c xs))"
    using total trans Cons.IH by (rule sorted_insertBy)
  then show ?case by (simp add: sortBy_def)
qed

lemma filter_insertBy:
  assumes "\<And>y. P x \<Longrightarrow> y \<in> set ys \<Longrightarrow> P y \<Longrightarrow> c x y \<le> 0"
  shows "filter P (insertBy c x ys) = (if P x then x # filter P ys else filter P ys)"
  using assms by (induction ys) auto

lemma filter_sortBy:
  assumes "\<And>x y. P x \<Longrightarrow> P y \<Longrightarrow> c x y \<le> 0"
  shows "filter P (sortBy c xs) = filter P xs"
proof (induction xs)
  case Nil
  then show ?case by (simp add: sortBy_def)
next
  case (Cons x xs)
  have "filter P (insertBy c x (sortBy c xs))
          = (if P x then x # filter P (sortBy c xs) else filter P (sortBy c xs))"
    by (rule filter_insertBy) (rule assms)
  with Cons show ?case by (simp add: sortBy_def)
qed

lemma sorted_wrt_unique:
  assumes "sorted_wrt R xs" and "sorted_wrt R ys" and "mset xs = mset ys"
    and "\<And>p q. p \<in> set xs \<Longrightarrow> q \<in> set xs \<Longrightarrow> p \<noteq> q \<Longrightarrow> \<not> (R p q \<and> R q p)"
  shows "xs = ys"
  using assms
proof (induction xs arbitrary: ys)
  case Nil
  then show ?case by simp
next
  case (Cons x xs)
  from Cons.prems(3) have "ys \<noteq> []" by auto
  then obtain y ys' where ys: "ys = y # ys'" by (cases ys) auto
  from Cons.prems(3) have sets: "set (x # xs) = set ys" by (metis set_mset_mset)
  have "x = y"
  proof (rule ccontr)
    assume ne: "x \<noteq> y"
    with sets ys have "x \<in> set ys'" "y \<in> set xs" by auto
    with Cons.prems(1,2) ys have "R y x" "R x y" by auto
    moreover have "x \<in> set (x # xs)" "y \<in> set (x # xs)" using \<open>y \<in> set xs\<close> by auto
    ultimately show False using Cons.prems(4) ne by blast
  qed
  moreover have "xs = ys'"
  proof (rule Cons.IH)
    show "sorted_wrt R xs" "sorted_wrt R ys'" using Cons.prems(1,2) ys by auto
    show "mset xs = mset ys'" using Cons.prems(3) ys \<open>x = y\<close> by simp
    show "\<not> (R p q \<and> R q p)" if "p \<in> set xs" "q \<in> set xs" "p \<noteq> q" for p q
      using Cons.prems(4) [of p q] that by auto
  qed
  ultimately show ?case using ys by simp
qed

lemma buildAll_map:
  "buildAll docs = Inr ps \<Longrightarrow> map Inr ps = map (\<lambda>(key, data). buildProcess data key) docs"
  by (induction docs arbitrary: ps) (auto split: sum.splits)

lemma buildAll_Inr_iff:
  "(\<exists>ps. buildAll docs = Inr ps) \<longleftrightarrow> (\<forall>(key, data) \<in> set docs. \<exists>p. buildProcess data key = Inr p)"
  by (induction docs) (auto split: sum.splits)

lemma sanitizeValue_not_textual:
  "\<not> textual field \<Longrightarrow> sanitizeValue (coalesce field (JStr d)) = Inl TypeError"
  by (cases field; cases "the field") (auto simp: textual_def)

lemma sanitizeValue_Inl: "sanitizeValue v = Inl err \<Longrightarrow> err = TypeError"
  by (cases v) simp_all

lemma buildProcess_Inr_iff:
  "(\<exists>p. buildProcess data key = Inr p) \<longleftrightarrow>
   textual (map_of data (js ''id'')) \<and> textual (map_of data (js ''supplierName''))"
proof
  assume built: "\<exists>p. buildProcess data key = Inr p"
  show "textual (map_of data (js ''id'')) \<and> textual (map_of data (js ''supplierName''))"
  proof (rule ccontr)
    assume "\<not> (textual (map_of data (js ''id'')) \<and> textual (map_of data (js ''supplierName'')))"
    then have "buildProcess data key = Inl TypeError"
      by (auto simp: buildProcess_def sanitizeValue_not_textual
            dest: sanitizeValue_Inl split: sum.splits)
    with built show False by simp
  qed
next
  assume "textual (map_of data (js ''id'')) \<and> textual (map_of data (js ''supplierName''))"
  then have id: "textual (map_of data (js ''id''))"
    and supplier: "textual (map_of data (js ''supplierName''))"
    by simp_all
  show "\<exists>p. buildProcess data key = Inr p"
    by (rule buildProcess_textual [OF id supplier]) (rule exI)
qed

lemma buildAll_well_typed: "(\<exists>ps. buildAll docs = Inr ps) \<longleftrightarrow> well_typed docs"
  by (simp only: buildAll_Inr_iff well_typed_def buildProcess_Inr_iff)

lemma mset_Inr_eq:
  fixes xs ys :: "'a list"
  assumes "mset (map (Inr :: 'a \<Rightarrow> 'b + 'a) xs) = mset (map Inr ys)"
  shows "mset xs = mset ys"
proof -
  from assms have "image_mset (Inr :: 'a \<Rightarrow> 'b + 'a) (mset xs) = image_mset Inr (mset ys)"
    by simp
  moreover have "inj (image_mset (Inr :: 'a \<Rightarrow> 'b + 'a))"
    by (rule multiset.inj_map) simp
  ultimately show ?thesis by (auto dest: injD)
qed

lemma buildAll_permuted:
  assumes "mset docs' = mset docs" and "buildAll docs = Inr ps"
  shows "\<exists>ps'. buildAll docs' = Inr ps' \<and> mset ps' = mset ps"
proof -
  from assms(1) have "set docs' = set docs" by (metis set_mset_mset)
  with assms(2) obtain ps' where ps': "buildAll docs' = Inr ps'"
    using buildAll_Inr_iff [of docs] buildAll_Inr_iff [of docs'] by auto
  have "mset (map Inr ps') = image_mset (\<lambda>(key, data). buildProcess data key) (mset docs')"
    using buildAll_map [OF ps'] by simp
  also have "\<dots> = mset (map Inr ps)"
    using buildAll_map [OF assms(2)] assms(1) by simp
  finally have "mset ps' = mset ps" by (rule mset_Inr_eq)
  with ps' show ?thesis by blast
qed

lemma onSnapshotNext_items:
  assumes "buildAll docs = Inr ps"
  shows "onSnapshotNext cmp docs st =
     (None, st\<lparr>connectionStatus := Connected,
              items := sortBy (\<lambda>a b. cmp (id' b) (id' a)) ps\<rparr>)"
  using assms by (simp add: onSnapshotNext_def)

lemma onSnapshotNext_failed:
  "buildAll docs = Inl err \<Longrightarrow>
   onSnapshotNext cmp docs st = (Some err, st\<lparr>connectionStatus := Connected\<rparr>)"
  by (simp add: onSnapshotNext_def)

lemma hook_snapshot:
  "useProcurementData cmp True (ns @ [Snapshot docs])
     = snd (onSnapshotNext cmp docs (useProcurementData cmp True ns))"
  by (simp add: useProcurementData_def)

lemma buildAll_projr:
  "buildAll docs = Inr ps \<Longrightarrow> ps = map (\<lambda>(key, data). projr (buildProcess data key)) docs"
  by (induction docs arbitrary: ps) (auto split: sum.splits)

lemma codeUnitCompare_le: "codeUnitCompare a b \<le> 0 \<longleftrightarrow> a \<le> b"
  by (induction a b rule: codeUnitCompare.induct) auto

lemma consistent_codeUnitCompare: "consistent codeUnitCompare"
  unfolding consistent_def codeUnitCompare_le
  by (intro conjI allI impI) (rule linear, elim conjE, rule order_trans)

lemmas text_defs = js_def sanitizeTextInput_def trim_def isHazard_def isWhiteSpace_def

text \<open>
  C7, as the code has it. Let the host's comparison be consistent. A snapshot whose
  documents all map without an exception sets the state to connected and replaces the
  collection by exactly the mapped documents, sorted by id descending in the order of
  the host's comparison; records whose ids the comparison does not tell apart keep their
  arrival order, so the collection does not depend on the arrival order when no two
  different records have such ids. A snapshot with a document that does not map leaves
  the collection as it was. The ids PO-002, PO-010, PO-001 come out as PO-010, PO-002,
  PO-001 under every comparison that puts PO-001 before PO-002 before PO-010.
\<close>

theorem snapshot_sorted_by_host_comparison:
  assumes "consistent cmp"
  shows
    "(well_typed docs \<longrightarrow>
        connectionStatus (useProcurementData cmp True (ns @ [Snapshot docs])) = Connected
      \<and> mset (map Inr (items (useProcurementData cmp True (ns @ [Snapshot docs]))))
          = mset (map (\<lambda>(key, data). buildProcess data key) docs)
      \<and> sorted_wrt (\<lambda>a b. cmp (id' b) (id' a) \<le> 0)
          (items (useProcurementData cmp True (ns @ [Snapshot docs])))
      \<and> (\<forall>i. filter (\<lambda>p. tied cmp (id' p) i)
                 (items (useProcurementData cmp True (ns @ [Snapshot docs])))
             = filter (\<lambda>p. tied cmp (id' p) i)
                 (map (\<lambda>(key, data). projr (buildProcess data key)) docs))
      \<and> (\<forall>docs'. mset docs' = mset docs
             \<and> (\<forall>p \<in> set (items (useProcurementData cmp True (ns @ [Snapshot docs]))).
                  \<forall>q \<in> set (items (useProcurementData cmp True (ns @ [Snapshot docs]))).
                    p \<noteq> q \<longrightarrow> \<not> tied cmp (id' p) (id' q))
             \<longrightarrow> items (useProcurementData cmp True (ns @ [Snapshot docs']))
                 = items (useProcurementData cmp True (ns @ [Snapshot docs]))))
     \<and> (\<not> well_typed docs \<longrightarrow>
          useProcurementData cmp True (ns @ [Snapshot docs])
          = (useProcurementData cmp True ns)\<lparr>connectionStatus := Connected\<rparr>)
     \<and> (precedes cmp (js ''PO-001'') (js ''PO-002'') \<and> precedes cmp (js ''PO-002'') (js ''PO-010'')
          \<and> precedes cmp (js ''PO-001'') (js ''PO-010'') \<longrightarrow>
          map id' (items (useProcurementData cmp True
            (ns @ [Snapshot [(js ''PO-002'', []), (js ''PO-010'', []), (js ''PO-001'', [])]])))
          = [js ''PO-010'', js ''PO-002'', js ''PO-001''])"
proof (intro conjI impI)
  let ?c = "\<lambda>(a :: ProcurementProcess) (b :: ProcurementProcess). cmp (id' b) (id' a)"
  let ?st = "useProcurementData cmp True ns"
  assume "well_typed docs"
  then obtain ps where ps: "buildAll docs = Inr ps"
    using buildAll_well_typed by blast
  have run: "useProcurementData cmp True (ns @ [Snapshot docs])
      = ?st\<lparr>connectionStatus := Connected, items := sortBy ?c ps\<rparr>"
    by (simp add: hook_snapshot onSnapshotNext_items [OF ps])
  show "connectionStatus (useProcurementData cmp True (ns @ [Snapshot docs])) = Connected"
    by (simp add: run)
  have "mset (map Inr (sortBy ?c ps)) = mset (map Inr ps)"
    by (simp add: mset_sortBy)
  also have "map Inr ps = map (\<lambda>(key, data). buildProcess data key) docs"
    using ps by (rule buildAll_map)
  finally show "mset (map Inr (items (useProcurementData cmp True (ns @ [Snapshot docs]))))
      = mset (map (\<lambda>(key, data). buildProcess data key) docs)"
    by (simp add: run)
  have sorted: "sorted_wrt (\<lambda>a b. cmp (id' b) (id' a) \<le> 0) (sortBy ?c ps)"
    using assms by (rule sorted_sortBy)
  then show "sorted_wrt (\<lambda>a b. cmp (id' b) (id' a) \<le> 0)
      (items (useProcurementData cmp True (ns @ [Snapshot docs])))"
    by (simp add: run)
  show "\<forall>i. filter (\<lambda>p. tied cmp (id' p) i)
                 (items (useProcurementData cmp True (ns @ [Snapshot docs])))
             = filter (\<lambda>p. tied cmp (id' p) i)
                 (map (\<lambda>(key, data). projr (buildProcess data key)) docs)"
  proof
    fix i
    have "filter (\<lambda>p. tied cmp (id' p) i) (sortBy ?c ps) = filter (\<lambda>p. tied cmp (id' p) i) ps"
    proof (rule filter_sortBy)
      fix x y :: ProcurementProcess
      assume "tied cmp (id' x) i" and "tied cmp (id' y) i"
      then have "cmp (id' y) i \<le> 0" and "cmp i (id' x) \<le> 0"
        by (simp_all add: tied_def)
      with assms show "cmp (id' y) (id' x) \<le> 0"
        by (rule consistent_trans)
    qed
    then show "filter (\<lambda>p. tied cmp (id' p) i)
                 (items (useProcurementData cmp True (ns @ [Snapshot docs])))
             = filter (\<lambda>p. tied cmp (id' p) i)
                 (map (\<lambda>(key, data). projr (buildProcess data key)) docs)"
      unfolding run using buildAll_projr [OF ps] by simp
  qed
  show "\<forall>docs'. mset docs' = mset docs
             \<and> (\<forall>p \<in> set (items (useProcurementData cmp True (ns @ [Snapshot docs]))).
                  \<forall>q \<in> set (items (useProcurementData cmp True (ns @ [Snapshot docs]))).
                    p \<noteq> q \<longrightarrow> \<not> tied cmp (id' p) (id' q))
             \<longrightarrow> items (useProcurementData cmp True (ns @ [Snapshot docs']))
                 = items (useProcurementData cmp True (ns @ [Snapshot docs]))"
  proof (intro allI impI, elim conjE)
    fix docs'
    assume same: "mset docs' = mset docs"
      and apart: "\<forall>p \<in> set (items (useProcurementData cmp True (ns @ [Snapshot docs]))).
                  \<forall>q \<in> set (items (useProcurementData cmp True (ns @ [Snapshot docs]))).
                    p \<noteq> q \<longrightarrow> \<not> tied cmp (id' p) (id' q)"
    from buildAll_permuted [OF same ps] obtain ps'
      where ps': "buildAll docs' = Inr ps'" and perm: "mset ps' = mset ps" by blast
    have run': "useProcurementData cmp True (ns @ [Snapshot docs'])
        = ?st\<lparr>connectionStatus := Connected, items := sortBy ?c ps'\<rparr>"
      by (simp add: hook_snapshot onSnapshotNext_items [OF ps'])
    have "sortBy ?c ps = sortBy ?c ps'"
    proof (rule sorted_wrt_unique)
      show "sorted_wrt (\<lambda>a b. cmp (id' b) (id' a) \<le> 0) (sortBy ?c ps)"
        by (rule sorted)
      show "sorted_wrt (\<lambda>a b. cmp (id' b) (id' a) \<le> 0) (sortBy ?c ps')"
        using assms by (rule sorted_sortBy)
      show "mset (sortBy ?c ps) = mset (sortBy ?c ps')"
        using perm by (simp add: mset_sortBy)
      show "\<not> (cmp (id' q) (id' p) \<le> 0 \<and> cmp (id' p) (id' q) \<le> 0)"
        if "p \<in> set (sortBy ?c ps)" "q \<in> set (sortBy ?c ps)" "p \<noteq> q" for p q
        using apart that unfolding run by (auto simp: tied_def)
    qed
    then show "items (useProcurementData cmp True (ns @ [Snapshot docs']))
                 = items (useProcurementData cmp True (ns @ [Snapshot docs]))"
      by (simp add: run run')
  qed
next
  assume "\<not> well_typed docs"
  then have "\<not> (\<exists>ps. buildAll docs = Inr ps)"
    by (simp only: buildAll_well_typed not_False_eq_True)
  then obtain err where "buildAll docs = Inl err"
    by (cases "buildAll docs") auto
  then show "useProcurementData cmp True (ns @ [Snapshot docs])
          = (useProcurementData cmp True ns)\<lparr>connectionStatus := Connected\<rparr>"
    by (simp add: hook_snapshot onSnapshotNext_failed)
next
  assume "precedes cmp (js ''PO-001'') (js ''PO-002'') \<and> precedes cmp (js ''PO-002'') (js ''PO-010'')
          \<and> precedes cmp (js ''PO-001'') (js ''PO-010'')"
  then show "map id' (items (useProcurementData cmp True
            (ns @ [Snapshot [(js ''PO-002'', []), (js ''PO-010'', []), (js ''PO-001'', [])]])))
          = [js ''PO-010'', js ''PO-002'', js ''PO-001'']"
    by (simp add: hook_snapshot onSnapshotNext_def buildProcess_def sortBy_def precedes_def
          text_defs)
qed

theorem snapshot_sorted_by_host_comparison_witness:
  "connectionStatus (useProcurementData codeUnitCompare True
      [Snapshot [(js ''k1'', [(js ''id'', JStr (js ''PO-002''))]),
                 (js ''k2'', [(js ''id'', JStr (js ''PO-010''))]),
                 (js ''k3'', [(js ''id'', JStr (js ''PO-001''))])]]) = Connected
   \<and> map id' (items (useProcurementData codeUnitCompare True
      [Snapshot [(js ''k1'', [(js ''id'', JStr (js ''PO-002''))]),
                 (js ''k2'', [(js ''id'', JStr (js ''PO-010''))]),
                 (js ''k3'', [(js ''id'', JStr (js ''PO-001''))])]]))
       = [js ''PO-010'', js ''PO-002'', js ''PO-001'']
   \<and> items (useProcurementData codeUnitCompare True
      [Snapshot [(js ''k3'', [(js ''id'', JStr (js ''PO-001''))]),
                 (js ''k2'', [(js ''id'', JStr (js ''PO-010''))]),
                 (js ''k1'', [(js ''id'', JStr (js ''PO-002''))])]])
       = items (useProcurementData codeUnitCompare True
      [Snapshot [(js ''k1'', [(js ''id'', JStr (js ''PO-002''))]),
                 (js ''k2'', [(js ''id'', JStr (js ''PO-010''))]),
                 (js ''k3'', [(js ''id'', JStr (js ''PO-001''))])]])"
proof -
  let ?docs = "[(js ''k1'', [(js ''id'', JStr (js ''PO-002''))]),
                (js ''k2'', [(js ''id'', JStr (js ''PO-010''))]),
                (js ''k3'', [(js ''id'', JStr (js ''PO-001''))])]"
  let ?docs' = "[(js ''k3'', [(js ''id'', JStr (js ''PO-001''))]),
                 (js ''k2'', [(js ''id'', JStr (js ''PO-010''))]),
                 (js ''k1'', [(js ''id'', JStr (js ''PO-002''))])]"
  let ?out = "useProcurementData codeUnitCompare True ([] @ [Snapshot ?docs])"
  note fact = snapshot_sorted_by_host_comparison
    [OF consistent_codeUnitCompare, where ns = "[]" and docs = ?docs, THEN conjunct1]
  have typed: "well_typed ?docs"
    by (simp add: well_typed_def textual_def js_def)
  note typed_run = fact [THEN mp, OF typed]
  have ids: "map id' (items ?out) = [js ''PO-010'', js ''PO-002'', js ''PO-001'']"
    by (simp add: useProcurementData_def onSnapshotNext_def buildProcess_def sortBy_def text_defs)
  have apart: "\<forall>p \<in> set (items ?out). \<forall>q \<in> set (items ?out).
      p \<noteq> q \<longrightarrow> \<not> tied codeUnitCompare (id' p) (id' q)"
  proof (intro ballI impI notI)
    fix p q
    assume p: "p \<in> set (items ?out)" and q: "q \<in> set (items ?out)"
      and "p \<noteq> q" and t: "tied codeUnitCompare (id' p) (id' q)"
    from t have "id' p \<le> id' q" and "id' q \<le> id' p"
      by (simp_all add: tied_def codeUnitCompare_le)
    then have eq: "id' p = id' q"
      by (rule antisym)
    have "distinct (map id' (items ?out))"
      by (simp only: ids) (simp add: js_def)
    then have "inj_on id' (set (items ?out))"
      by (simp add: distinct_map)
    from this eq p q have "p = q" by (rule inj_onD)
    with \<open>p \<noteq> q\<close> show False ..
  qed
  have "rev ?docs = ?docs'"
    by (simp only: rev.simps append.simps)
  then have same: "mset ?docs' = mset ?docs"
    using mset_rev [of ?docs] by (simp only:)
  from same apart have "mset ?docs' = mset ?docs
      \<and> (\<forall>p \<in> set (items ?out). \<forall>q \<in> set (items ?out).
            p \<noteq> q \<longrightarrow> \<not> tied codeUnitCompare (id' p) (id' q))"
    by (rule conjI)
  note independent = typed_run [THEN conjunct2, THEN conjunct2, THEN conjunct2, THEN conjunct2,
      THEN spec, THEN mp, OF this]
  have "connectionStatus ?out = Connected"
    by (rule typed_run [THEN conjunct1])
  with ids independent show ?thesis
    by (simp only: append_Nil simp_thms)
qed

text \<open>
  C7, as stated, fails whatever the host's comparison is. Two documents that carry the
  same id PO-1 and different supplier names come out in two different collections for
  the two arrival orders; and after a snapshot with one document, a snapshot whose
  second document has a number as id leaves the collection with that one document.
\<close>

theorem snapshot_depends_on_arrival_order:
  "\<forall>cmp.
     items (useProcurementData cmp True
        [Snapshot [(js ''a'', [(js ''id'', JStr (js ''PO-1'')), (js ''supplierName'', JStr (js ''ACME''))]),
                   (js ''b'', [(js ''id'', JStr (js ''PO-1'')), (js ''supplierName'', JStr (js ''Bolt''))])]])
     \<noteq> items (useProcurementData cmp True
        [Snapshot [(js ''b'', [(js ''id'', JStr (js ''PO-1'')), (js ''supplierName'', JStr (js ''Bolt''))]),
                   (js ''a'', [(js ''id'', JStr (js ''PO-1'')), (js ''supplierName'', JStr (js ''ACME''))])]])
     \<and> useProcurementData cmp True
        [Snapshot [(js ''a'', [(js ''id'', JStr (js ''PO-1''))])],
         Snapshot [(js ''a'', [(js ''id'', JStr (js ''PO-1''))]), (js ''c'', [(js ''id'', JNum 5)])]]
       = useProcurementData cmp True [Snapshot [(js ''a'', [(js ''id'', JStr (js ''PO-1''))])]]"
proof (intro allI conjI)
  fix cmp :: "jsstring \<Rightarrow> jsstring \<Rightarrow> int"
  have "js ''ACME'' \<noteq> js ''Bolt''"
    by (simp add: js_def)
  then show "items (useProcurementData cmp True
        [Snapshot [(js ''a'', [(js ''id'', JStr (js ''PO-1'')), (js ''supplierName'', JStr (js ''ACME''))]),
                   (js ''b'', [(js ''id'', JStr (js ''PO-1'')), (js ''supplierName'', JStr (js ''Bolt''))])]])
     \<noteq> items (useProcurementData cmp True
        [Snapshot [(js ''b'', [(js ''id'', JStr (js ''PO-1'')), (js ''supplierName'', JStr (js ''Bolt''))]),
                   (js ''a'', [(js ''id'', JStr (js ''PO-1'')), (js ''supplierName'', JStr (js ''ACME''))])]])"
    by (simp add: useProcurementData_def onSnapshotNext_def buildProcess_def sortBy_def text_defs)
  show "useProcurementData cmp True
        [Snapshot [(js ''a'', [(js ''id'', JStr (js ''PO-1''))])],
         Snapshot [(js ''a'', [(js ''id'', JStr (js ''PO-1''))]), (js ''c'', [(js ''id'', JNum 5)])]]
       = useProcurementData cmp True [Snapshot [(js ''a'', [(js ''id'', JStr (js ''PO-1''))])]]"
    by (simp add: useProcurementData_def onSnapshotNext_def buildProcess_def sortBy_def text_defs)
qed

lemma items_only_errors:
  "set ns \<subseteq> {ListenerError} \<Longrightarrow> items (foldl (notify cmp) st ns) = items st"
  by (induction ns arbitrary: st) (auto simp: onSnapshotError_def)

text \<open>
  C5, as the code has it. Without services the hook reports \<open>error\<close> and the collection is
  empty, and so it is when the subscription fails before any snapshot has arrived. A
  failure of the subscription sets the connection state to \<open>error\<close> and leaves the
  collection as the last snapshot delivered it. The comparison of the host plays no part.
\<close>

theorem error_state_collection:
  "useProcurementData cmp False ns = \<lparr>items = [], connectionStatus = Error\<rparr>
   \<and> (set ns \<subseteq> {ListenerError} \<longrightarrow> items (useProcurementData cmp True ns) = [])
   \<and> useProcurementData cmp True (ns @ [ListenerError])
       = (useProcurementData cmp True ns)\<lparr>connectionStatus := Error\<rparr>"
  by (simp add: useProcurementData_def onSnapshotError_def items_only_errors)

theorem error_state_collection_witness:
  "useProcurementData codeUnitCompare False [Snapshot [(js ''PO-1'', [])]]
     = \<lparr>items = [], connectionStatus = Error\<rparr>
   \<and> useProcurementData codeUnitCompare True [ListenerError]
     = \<lparr>items = [], connectionStatus = Error\<rparr>"
proof -
  note fact = error_state_collection [of codeUnitCompare]
  have "set [ListenerError] \<subseteq> {ListenerError}" by simp
  with fact [of "[ListenerError]", THEN conjunct2, THEN conjunct1]
  have "items (useProcurementData codeUnitCompare True [ListenerError]) = []" by (rule mp)
  moreover have "connectionStatus (useProcurementData codeUnitCompare True [ListenerError]) = Error"
    using fact [of "[]", THEN conjunct2, THEN conjunct2] by simp
  ultimately have "useProcurementData codeUnitCompare True [ListenerError]
      = \<lparr>items = [], connectionStatus = Error\<rparr>"
    by (cases "useProcurementData codeUnitCompare True [ListenerError]") simp
  with fact [of "[Snapshot [(js ''PO-1'', [])]]", THEN conjunct1] show ?thesis
    by (intro conjI)
qed

text \<open>
  C5, as stated, fails: after one snapshot with one document, a failure of the
  subscription leaves the state \<open>error\<close> with that document still in the collection,
  whatever the host's comparison is.
\<close>

theorem error_state_keeps_collection:
  "\<forall>cmp.
     connectionStatus (useProcurementData cmp True [Snapshot [(js ''PO-1'', [])], ListenerError])
       = Error
     \<and> map id' (items (useProcurementData cmp True [Snapshot [(js ''PO-1'', [])], ListenerError]))
       = [js ''PO-1'']"
  by (simp add: useProcurementData_def onSnapshotError_def onSnapshotNext_def buildProcess_def
        sortBy_def text_defs)

section \<open>Upload handler\<close>

lemma sanitizeStage_Some:
  "sanitizeStage rawStage = Some stage \<Longrightarrow>
   rawStage = stage \<and> (stage = js ''confirmation'' \<or> stage = js ''delivery'')"
  by (auto simp: sanitizeStage_def split: if_splits)

lemma sanitize_Nil: "sanitizeTextInput [] = []"
  by (simp add: sanitizeTextInput_def trim_def)

lemma handleFileUpload_submits:
  assumes "submits a eventFile rawStage stage file sid"
  shows "handleFileUpload a e db eventFile rawStage =
     (case uploadTry e db sid stage file (webhookUrl a stage) of
        (effects, db', thrown) \<Rightarrow>
          (SetUploadingStage (Some stage) # effects
             @ (case thrown of None \<Rightarrow> [] | Some err \<Rightarrow> [ConsoleError, Alert])
             @ [SetUploadingStage None],
           db'))"
  using assms
  by (auto simp: submits_def handleFileUpload_def sanitize_Nil split: option.splits)

lemma submits_stage:
  "submits a eventFile rawStage stage file sid \<Longrightarrow>
   stage = js ''confirmation'' \<or> stage = js ''delivery''"
  by (auto simp: submits_def dest: sanitizeStage_Some)

lemma marker_last: "marker m (es @ [SetUploadingStage x]) = x"
  by (induction m es rule: marker.induct) auto

lemma splitDots_plain: "0x2E \<notin> set w \<Longrightarrow> splitDots w = [w]"
  by (induction w) auto

lemma splitDots_dot:
  "0x2E \<notin> set a \<Longrightarrow> 0x2E \<notin> set b \<Longrightarrow> splitDots (a @ 0x2E # b) = [a, b]"
  by (induction a) (auto simp: splitDots_plain)

lemma stage_no_dot:
  "stage = js ''confirmation'' \<or> stage = js ''delivery'' \<Longrightarrow> 0x2E \<notin> set stage"
  by (auto simp: js_def)

lemma stage_not_status:
  "stage = js ''confirmation'' \<or> stage = js ''delivery'' \<Longrightarrow> stage \<noteq> js ''status''"
  by (auto simp: js_def)

lemma map_of_setPath1: "map_of (setPath [k] v d) = (map_of d)(k \<mapsto> v)"
  by (simp add: update_conv')

lemma map_of_setPath2:
  "map_of (setPath [k, f] v d) =
     (map_of d)(k \<mapsto> JObj (AList.update f v (case map_of d k of Some (JObj m) \<Rightarrow> m | _ \<Rightarrow> [])))"
  by (simp add: update_conv')

lemma analyzing_paths:
  assumes "stage = js ''confirmation'' \<or> stage = js ''delivery''"
  shows "applyUpdates (analyzingWrite e stage file) d =
     setPath [stage, js ''uploadedAt''] (now e)
       (setPath [stage, js ''fileName''] (JStr (sanitizeTextInput (name file)))
          (setPath [stage, js ''status''] (JStr (js ''analyzing'')) d))"
proof -
  have "js ''.status'' = 0x2E # js ''status''" "js ''.fileName'' = 0x2E # js ''fileName''"
    "js ''.uploadedAt'' = 0x2E # js ''uploadedAt''"
    by (simp_all add: js_def)
  moreover have "0x2E \<notin> set (js ''status'')" "0x2E \<notin> set (js ''fileName'')"
    "0x2E \<notin> set (js ''uploadedAt'')"
    by (simp_all add: js_def)
  ultimately show ?thesis
    using stage_no_dot [OF assms]
    by (simp add: applyUpdates_def analyzingWrite_def splitDots_dot)
qed

lemma fallback_paths:
  assumes "stage = js ''confirmation'' \<or> stage = js ''delivery''"
  shows "applyUpdates (fallbackWrite c stage) d =
     setPath [js ''status'']
       (JStr (if c then js ''conflict''
              else if stage = js ''delivery'' then js ''completed'' else js ''open''))
       (setPath [stage, js ''conflictReason'']
          (if c then JStr (js ''Menge weicht ab (Simulierter Fehler)'') else JNull)
          (setPath [stage, js ''status'']
             (JStr (if c then js ''conflict'' else js ''verified'')) d))"
proof -
  have "js ''.status'' = 0x2E # js ''status''"
    "js ''.conflictReason'' = 0x2E # js ''conflictReason''"
    by (simp_all add: js_def)
  moreover have "0x2E \<notin> set (js ''status'')" "0x2E \<notin> set (js ''conflictReason'')"
    by (simp_all add: js_def)
  ultimately show ?thesis
    using stage_no_dot [OF assms]
    by (simp add: applyUpdates_def fallbackWrite_def splitDots_dot splitDots_plain)
qed

lemma analyzing_stored:
  assumes "stage = js ''confirmation'' \<or> stage = js ''delivery''"
  shows "storedStageStatus (applyUpdates (analyzingWrite e stage file) d) stage
           = Some (JStr (js ''analyzing''))"
    and "k \<noteq> stage \<Longrightarrow> map_of (applyUpdates (analyzingWrite e stage file) d) k = map_of d k"
proof -
  have ne: "js ''uploadedAt'' \<noteq> js ''status''" "js ''fileName'' \<noteq> js ''status''"
    by (simp_all add: js_def)
  show "storedStageStatus (applyUpdates (analyzingWrite e stage file) d) stage
           = Some (JStr (js ''analyzing''))"
    unfolding analyzing_paths [OF assms] storedStageStatus_def
    using ne by (simp add: map_of_setPath2 update_conv' del: setPath.simps)
  show "map_of (applyUpdates (analyzingWrite e stage file) d) k = map_of d k" if "k \<noteq> stage"
    unfolding analyzing_paths [OF assms]
    using that by (simp add: map_of_setPath2 del: setPath.simps)
qed

lemma fallback_stored:
  assumes "stage = js ''confirmation'' \<or> stage = js ''delivery''"
  shows "storedStageStatus (applyUpdates (fallbackWrite c stage) d) stage
           = Some (JStr (if c then js ''conflict'' else js ''verified''))"
    and "map_of (applyUpdates (fallbackWrite c stage) d) (js ''status'')
           = Some (JStr (if c then js ''conflict''
                         else if stage = js ''delivery'' then js ''completed'' else js ''open''))"
    and "k \<noteq> stage \<Longrightarrow> k \<noteq> js ''status'' \<Longrightarrow>
           map_of (applyUpdates (fallbackWrite c stage) d) k = map_of d k"
proof -
  have ne: "js ''conflictReason'' \<noteq> js ''status''"
    by (simp add: js_def)
  note st = stage_not_status [OF assms]
  show "storedStageStatus (applyUpdates (fallbackWrite c stage) d) stage
           = Some (JStr (if c then js ''conflict'' else js ''verified''))"
    unfolding fallback_paths [OF assms] storedStageStatus_def
    using ne st by (simp add: map_of_setPath1 map_of_setPath2 update_conv' del: setPath.simps)
  show "map_of (applyUpdates (fallbackWrite c stage) d) (js ''status'')
           = Some (JStr (if c then js ''conflict''
                         else if stage = js ''delivery'' then js ''completed'' else js ''open''))"
    unfolding fallback_paths [OF assms]
    by (simp add: map_of_setPath1 del: setPath.simps)
  show "map_of (applyUpdates (fallbackWrite c stage) d) k = map_of d k"
    if "k \<noteq> stage" "k \<noteq> js ''status''"
    unfolding fallback_paths [OF assms]
    using that by (simp add: map_of_setPath1 map_of_setPath2 del: setPath.simps)
qed

lemma buildProcess_fields:
  assumes "buildProcess data fallbackId = Inr p"
  shows "status p = coalesce (map_of data (js ''status'')) (JStr (js ''open''))"
    and "confirmation p = mergeStep (coalesce (map_of data (js ''confirmation'')) (JObj []))"
    and "delivery p = mergeStep (coalesce (map_of data (js ''delivery'')) (JObj []))"
  using assms by (auto simp: buildProcess_def split: sum.splits)

lemma stored_to_step:
  assumes "storedStageStatus d stage = Some v"
  shows "mergeStep (coalesce (map_of d stage) (JObj [])) (js ''status'') = Some v"
  using assms
  by (auto simp: storedStageStatus_def mergeStep_def map_add_def split: option.splits jsval.splits)

lemmas demo_defs = demoApp_def demoEnv_def demoFile_def demoStore_def demoProcess_def

lemma demo_submits:
  "stage = js ''confirmation'' \<or> stage = js ''delivery'' \<Longrightarrow>
   submits (demoApp url) (Some demoFile) stage stage demoFile (js ''PO-1'')"
  by (auto simp: submits_def sanitizeStage_def demoApp_def text_defs)

text \<open>
  C10. When the stage name is neither confirmation nor delivery, or the event carries no
  file, or no process is selected, or the selected id sanitizes to the empty string, or
  the services are missing, the handler returns with no effect at all: no write, no call
  of \<open>setUploadingStage\<close>, and the store as it was.
\<close>

theorem guards_return_silently:
  assumes "(rawStage \<noteq> js ''confirmation'' \<and> rawStage \<noteq> js ''delivery'')
      \<or> eventFile = None
      \<or> selectedId a = None
      \<or> (\<exists>s. selectedId a = Some s \<and> sanitizeTextInput s = [])
      \<or> \<not> services a"
  shows "handleFileUpload a e db eventFile rawStage = ([], db)"
  using assms
  by (auto simp: handleFileUpload_def sanitizeStage_def sanitize_Nil split: option.splits)

theorem guards_return_silently_witness:
  "handleFileUpload (demoApp []) (demoEnv (1 / 2) TransportFailure) demoStore (Some demoFile)
     (js ''order'') = ([], demoStore)"
  by (rule guards_return_silently) (simp add: js_def)

text \<open>
  C9. A call that passes the guards sets the marker first and clears it last, whatever
  the store, the endpoint and the draw do: the effects begin with
  \<open>setUploadingStage(stage)\<close> and end with \<open>setUploadingStage(null)\<close>, so the marker
  is null afterwards on every path through \<open>try\<close>, \<open>catch\<close> and \<open>finally\<close>.
\<close>

theorem marker_cleared:
  assumes "submits a eventFile rawStage stage file sid"
  shows "hd (fst (handleFileUpload a e db eventFile rawStage)) = SetUploadingStage (Some stage)
    \<and> last (fst (handleFileUpload a e db eventFile rawStage)) = SetUploadingStage None
    \<and> marker m (fst (handleFileUpload a e db eventFile rawStage)) = None"
proof -
  obtain effects db' thrown
    where t: "uploadTry e db sid stage file (webhookUrl a stage) = (effects, db', thrown)"
    by (cases "uploadTry e db sid stage file (webhookUrl a stage)")
  let ?body = "effects @ (case thrown of None \<Rightarrow> [] | Some err \<Rightarrow> [ConsoleError, Alert])"
  have "fst (handleFileUpload a e db eventFile rawStage)
        = (SetUploadingStage (Some stage) # ?body) @ [SetUploadingStage None]"
    by (simp add: handleFileUpload_submits [OF assms] t)
  then show ?thesis
    by (simp only: marker_last last_snoc) simp
qed

theorem marker_cleared_witness:
  "marker (Some (js ''delivery''))
     (fst (handleFileUpload (demoApp (js ''https://n8n.example/hook''))
        (demoEnv (1 / 2) (Response 500)) demoStore (Some demoFile) (js ''confirmation'')))
   = None"
proof -
  have "submits (demoApp (js ''https://n8n.example/hook'')) (Some demoFile)
          (js ''confirmation'') (js ''confirmation'') demoFile (js ''PO-1'')"
    by (simp add: demo_submits)
  from marker_cleared [OF this, where m = "Some (js ''delivery'')" and db = demoStore
      and e = "demoEnv (1 / 2) (Response 500)", THEN conjunct2, THEN conjunct2]
  show ?thesis .
qed

text \<open>
  C6. With an endpoint configured for the stage, once the first write has been accepted
  and the dispatch fails (a transport failure or a status outside 200 to 299), the
  handler has issued exactly one write, the one that sets the stage to analyzing; the
  stored stage status is analyzing, the stored aggregate status is as before, and the
  failure is logged and shown to the user by an alert.
\<close>

theorem dispatch_failure_leaves_analyzing:
  assumes sub: "submits a eventFile rawStage stage file sid"
    and url: "webhookUrl a stage \<noteq> []"
    and doc: "db sid = Some d"
    and acc: "acceptsFirst e"
    and fail: "fetchResult e = TransportFailure \<or> (\<exists>code. fetchResult e = Response code \<and> \<not> ok code)"
  shows "fst (handleFileUpload a e db eventFile rawStage) =
           [SetUploadingStage (Some stage), UpdateDoc sid (analyzingWrite e stage file),
            Fetch (webhookUrl a stage) file sid stage, ConsoleError, Alert,
            SetUploadingStage None]
     \<and> (\<exists>d'. snd (handleFileUpload a e db eventFile rawStage) sid = Some d'
            \<and> storedStageStatus d' stage = Some (JStr (js ''analyzing''))
            \<and> map_of d' (js ''status'') = map_of d (js ''status''))"
proof -
  let ?d1 = "applyUpdates (analyzingWrite e stage file) d"
  note stage = submits_stage [OF sub]
  have w1: "updateDoc db sid (analyzingWrite e stage file) (acceptsFirst e) = Some (db(sid \<mapsto> ?d1))"
    using doc acc by (simp add: updateDoc_def)
  from fail have tried:
    "\<exists>err. uploadTry e db sid stage file (webhookUrl a stage) =
       ([UpdateDoc sid (analyzingWrite e stage file), Fetch (webhookUrl a stage) file sid stage],
        db(sid \<mapsto> ?d1), Some err)"
    using url by (auto simp: uploadTry_def w1 Let_def)
  then obtain err where
    "uploadTry e db sid stage file (webhookUrl a stage) =
       ([UpdateDoc sid (analyzingWrite e stage file), Fetch (webhookUrl a stage) file sid stage],
        db(sid \<mapsto> ?d1), Some err)" ..
  then have run: "handleFileUpload a e db eventFile rawStage =
       ([SetUploadingStage (Some stage), UpdateDoc sid (analyzingWrite e stage file),
         Fetch (webhookUrl a stage) file sid stage, ConsoleError, Alert, SetUploadingStage None],
        db(sid \<mapsto> ?d1))"
    by (simp add: handleFileUpload_submits [OF sub])
  have "storedStageStatus ?d1 stage = Some (JStr (js ''analyzing''))"
    using stage by (rule analyzing_stored(1))
  moreover have "map_of ?d1 (js ''status'') = map_of d (js ''status'')"
    using stage stage_not_status [OF stage] by (simp add: analyzing_stored(2))
  ultimately show ?thesis
    by (simp add: run)
qed

theorem dispatch_failure_leaves_analyzing_witness:
  "fst (handleFileUpload (demoApp (js ''https://n8n.example/hook''))
        (demoEnv (1 / 2) (Response 500)) demoStore (Some demoFile) (js ''delivery''))
   = [SetUploadingStage (Some (js ''delivery'')),
      UpdateDoc (js ''PO-1'')
        (analyzingWrite (demoEnv (1 / 2) (Response 500)) (js ''delivery'') demoFile),
      Fetch (js ''https://n8n.example/hook'') demoFile (js ''PO-1'') (js ''delivery''),
      ConsoleError, Alert, SetUploadingStage None]"
proof -
  let ?a = "demoApp (js ''https://n8n.example/hook'')"
  let ?e = "demoEnv (1 / 2) (Response 500)"
  have sub: "submits ?a (Some demoFile) (js ''delivery'') (js ''delivery'') demoFile (js ''PO-1'')"
    by (simp add: demo_submits)
  have url: "webhookUrl ?a (js ''delivery'') = js ''https://n8n.example/hook''"
    by (simp add: webhookUrl_def demoApp_def)
  then have url': "webhookUrl ?a (js ''delivery'') \<noteq> []"
    by (simp add: js_def)
  have doc: "demoStore (js ''PO-1'') = Some [(js ''supplierName'', JStr (js ''ACME''))]"
    by (simp add: demoStore_def)
  have acc: "acceptsFirst ?e"
    by (simp add: demoEnv_def)
  have fail: "fetchResult ?e = TransportFailure \<or> (\<exists>code. fetchResult ?e = Response code \<and> \<not> ok code)"
    by (simp add: demoEnv_def ok_def)
  from dispatch_failure_leaves_analyzing
    [where db = demoStore and d = "[(js ''supplierName'', JStr (js ''ACME''))]",
     OF sub url' doc acc fail, THEN conjunct1]
  show ?thesis by (simp only: url)
qed

text \<open>
  C3, as the code has it. Without an endpoint the second write depends on the draw
  alone: a draw above 0.7 gives conflict with the fixed reason
  \<open>Menge weicht ab (Simulierter Fehler)\<close>, any other draw gives verified with a null
  reason. Of the hundred draws 0.00, 0.01, ..., 0.99 exactly 29 give conflict.
\<close>

theorem fallback_classifier:
  assumes sub: "submits a eventFile rawStage stage file sid"
    and url: "webhookUrl a stage = []"
    and doc: "db sid = Some d"
    and acc: "acceptsFirst e"
  shows "fst (handleFileUpload a e db eventFile rawStage) ! 2
           = UpdateDoc sid (fallbackWrite (isConflict (random e)) stage)
     \<and> (isConflict (random e) \<longleftrightarrow> 7 / 10 < random e)
     \<and> map_of (fallbackWrite (isConflict (random e)) stage) (stage @ js ''.status'')
           = Some (JStr (if 7 / 10 < random e then js ''conflict'' else js ''verified''))
     \<and> map_of (fallbackWrite (isConflict (random e)) stage) (stage @ js ''.conflictReason'')
           = Some (if 7 / 10 < random e then JStr (js ''Menge weicht ab (Simulierter Fehler)'')
                   else JNull)
     \<and> length (filter (\<lambda>k. isConflict (of_nat k / 100)) [0..<100]) = 29"
proof -
  let ?d1 = "applyUpdates (analyzingWrite e stage file) d"
  let ?w2 = "fallbackWrite (isConflict (random e)) stage"
  have w1: "updateDoc db sid (analyzingWrite e stage file) (acceptsFirst e) = Some (db(sid \<mapsto> ?d1))"
    using doc acc by (simp add: updateDoc_def)
  have "\<exists>db' thrown. uploadTry e db sid stage file (webhookUrl a stage) =
       ([UpdateDoc sid (analyzingWrite e stage file), UpdateDoc sid ?w2], db', thrown)"
    by (simp add: uploadTry_def w1 url Let_def split: option.splits)
  then have second: "fst (handleFileUpload a e db eventFile rawStage) ! 2 = UpdateDoc sid ?w2"
    by (auto simp: handleFileUpload_submits [OF sub])
  have ne: "js ''.conflictReason'' \<noteq> js ''.status''"
    by (simp add: js_def)
  have fields: "map_of ?w2 (stage @ js ''.status'')
           = Some (JStr (if 7 / 10 < random e then js ''conflict'' else js ''verified''))"
     "map_of ?w2 (stage @ js ''.conflictReason'')
           = Some (if 7 / 10 < random e then JStr (js ''Menge weicht ab (Simulierter Fehler)'')
                   else JNull)"
    using ne by (simp_all add: fallbackWrite_def isConflict_def)
  have grid: "length (filter (\<lambda>k. isConflict (of_nat k / 100)) [0..<100]) = 29"
    by (simp add: isConflict_def upt_rec)
  from second fields grid show ?thesis
    by (simp add: isConflict_def)
qed

theorem fallback_classifier_witness:
  "fst (handleFileUpload (demoApp []) (demoEnv (9 / 10) TransportFailure) demoStore
          (Some demoFile) (js ''confirmation'')) ! 2
   = UpdateDoc (js ''PO-1'') (fallbackWrite True (js ''confirmation''))"
proof -
  let ?a = "demoApp []"
  let ?e = "demoEnv (9 / 10) TransportFailure"
  have sub: "submits ?a (Some demoFile) (js ''confirmation'') (js ''confirmation'') demoFile (js ''PO-1'')"
    by (simp add: demo_submits)
  have url: "webhookUrl ?a (js ''confirmation'') = []"
    by (simp add: webhookUrl_def demoApp_def)
  have doc: "demoStore (js ''PO-1'') = Some [(js ''supplierName'', JStr (js ''ACME''))]"
    by (simp add: demoStore_def)
  have acc: "acceptsFirst ?e"
    by (simp add: demoEnv_def)
  have "isConflict (random ?e)"
    by (simp add: isConflict_def demoEnv_def)
  with fallback_classifier
    [where db = demoStore and d = "[(js ''supplierName'', JStr (js ''ACME''))]",
     OF sub url doc acc, THEN conjunct1]
  show ?thesis by simp
qed

text \<open>
  C3, as stated, fails: of the hundred draws 0.00, 0.01, ..., 0.99 the classifier
  verifies 71; the draw 0.5 makes the handler write verified.
\<close>

theorem fallback_verifies_most_draws:
  "length (filter (\<lambda>k. \<not> isConflict (of_nat k / 100)) [0..<100]) = 71
   \<and> fst (handleFileUpload (demoApp []) (demoEnv (1 / 2) TransportFailure) demoStore
            (Some demoFile) (js ''confirmation'')) ! 2
       = UpdateDoc (js ''PO-1'')
           [(js ''confirmation.status'', JStr (js ''verified'')),
            (js ''confirmation.conflictReason'', JNull),
            (js ''status'', JStr (js ''open''))]"
proof -
  have "length (filter (\<lambda>k. \<not> isConflict (of_nat k / 100)) [0..<100]) = 71"
    by (simp add: isConflict_def upt_rec)
  moreover have "fst (handleFileUpload (demoApp []) (demoEnv (1 / 2) TransportFailure) demoStore
            (Some demoFile) (js ''confirmation'')) ! 2
       = UpdateDoc (js ''PO-1'')
           [(js ''confirmation.status'', JStr (js ''verified'')),
            (js ''confirmation.conflictReason'', JNull),
            (js ''status'', JStr (js ''open''))]"
    by (simp add: handleFileUpload_def sanitizeStage_def uploadTry_def updateDoc_def
          webhookUrl_def isConflict_def fallbackWrite_def Let_def demo_defs text_defs)
  ultimately show ?thesis by (rule conjI)
qed

lemma uploadTry_first_write:
  assumes "db sanitizedId = Some d" and "acceptsFirst e"
  shows "\<exists>rest db' thrown. uploadTry e db sanitizedId stage file url
           = (UpdateDoc sanitizedId (analyzingWrite e stage file) # rest, db', thrown)"
  using assms
  by (simp add: uploadTry_def updateDoc_def Let_def split: fetch_result.splits option.splits)

text \<open>
  C2, as the code has it. While the confirmation of a process is not verified, the
  delivery section of the detail view shows the notice, whatever the other fields are,
  and it shows the file input only when the confirmation is verified: the view offers
  no delivery upload. The handler itself rejects nothing on these grounds: its effects
  do not depend on the collection of processes, and a delivery call that passes the
  guards issues the analyzing write to the stored document, whatever that document and
  the displayed process hold.
\<close>

theorem delivery_blocked_in_view:
  "(confirmation p (js ''status'') \<noteq> Some (JStr (js ''verified'')) \<longrightarrow>
      deliverySection p uploading = Notice)
   \<and> (deliverySection p uploading = FileInput \<longrightarrow>
        confirmation p (js ''status'') = Some (JStr (js ''verified'')))
   \<and> handleFileUpload (a\<lparr>processes := ps\<rparr>) e db eventFile rawStage
       = handleFileUpload a e db eventFile rawStage
   \<and> (submits a eventFile rawStage (js ''delivery'') chosen sid \<and> db sid = Some d \<and> acceptsFirst e \<longrightarrow>
        UpdateDoc sid (analyzingWrite e (js ''delivery'') chosen)
          \<in> set (fst (handleFileUpload a e db eventFile rawStage)))"
proof (intro conjI impI)
  show "deliverySection p uploading = Notice"
    if "confirmation p (js ''status'') \<noteq> Some (JStr (js ''verified''))"
    using that by (simp add: deliverySection_def)
  show "confirmation p (js ''status'') = Some (JStr (js ''verified''))"
    if "deliverySection p uploading = FileInput"
    using that by (simp add: deliverySection_def split: if_splits)
  show "handleFileUpload (a\<lparr>processes := ps\<rparr>) e db eventFile rawStage
       = handleFileUpload a e db eventFile rawStage"
    by (simp add: handleFileUpload_def webhookUrl_def cong: option.case_cong if_cong)
  show "UpdateDoc sid (analyzingWrite e (js ''delivery'') chosen)
          \<in> set (fst (handleFileUpload a e db eventFile rawStage))"
    if "submits a eventFile rawStage (js ''delivery'') chosen sid \<and> db sid = Some d \<and> acceptsFirst e"
  proof -
    from that have sub: "submits a eventFile rawStage (js ''delivery'') chosen sid"
      and doc: "db sid = Some d" and acc: "acceptsFirst e"
      by simp_all
    from uploadTry_first_write [where db = db and sanitizedId = sid and d = d, OF doc acc]
    obtain rest db' thrown
      where "uploadTry e db sid (js ''delivery'') chosen (webhookUrl a (js ''delivery''))
           = (UpdateDoc sid (analyzingWrite e (js ''delivery'') chosen) # rest, db', thrown)"
      by blast
    then show ?thesis
      by (simp add: handleFileUpload_submits [OF sub])
  qed
qed

theorem delivery_blocked_in_view_witness:
  "deliverySection demoProcess None = Notice
   \<and> UpdateDoc (js ''PO-1'')
        (analyzingWrite (demoEnv (1 / 2) TransportFailure) (js ''delivery'') demoFile)
      \<in> set (fst (handleFileUpload (demoApp []) (demoEnv (1 / 2) TransportFailure) demoStore
                     (Some demoFile) (js ''delivery'')))"
proof -
  let ?e = "demoEnv (1 / 2) TransportFailure"
  note fact = delivery_blocked_in_view
    [where p = demoProcess and uploading = None and a = "demoApp []" and e = ?e
       and db = demoStore and eventFile = "Some demoFile" and rawStage = "js ''delivery''"
       and chosen = demoFile and sid = "js ''PO-1''"
       and d = "[(js ''supplierName'', JStr (js ''ACME''))]"]
  have conf: "confirmation demoProcess (js ''status'') \<noteq> Some (JStr (js ''verified''))"
    by (simp add: demoProcess_def defaultStep_def js_def)
  have sub: "submits (demoApp []) (Some demoFile) (js ''delivery'') (js ''delivery'') demoFile
      (js ''PO-1'')"
    by (simp add: demo_submits)
  have doc: "demoStore (js ''PO-1'') = Some [(js ''supplierName'', JStr (js ''ACME''))]"
    by (simp add: demoStore_def)
  have acc: "acceptsFirst ?e"
    by (simp add: demoEnv_def)
  from sub doc acc have "submits (demoApp []) (Some demoFile) (js ''delivery'') (js ''delivery'')
      demoFile (js ''PO-1'')
      \<and> demoStore (js ''PO-1'') = Some [(js ''supplierName'', JStr (js ''ACME''))]
      \<and> acceptsFirst ?e"
    by (intro conjI)
  note written = fact [THEN conjunct2, THEN conjunct2, THEN conjunct2, THEN mp, OF this]
  note blocked = fact [THEN conjunct1, THEN mp, OF conf]
  from blocked written show ?thesis by (rule conjI)
qed

text \<open>
  C2, as stated, fails. The selected process PO-1 is displayed with a pending
  confirmation and its stored document has no confirmation at all; a call of the
  handler for the delivery stage is not rejected: it writes analyzing and then, in the
  fallback with the draw 0.5, verified and the aggregate status completed.
\<close>

theorem delivery_upload_not_rejected:
  "selectedProcess (demoApp []) = Some demoProcess
   \<and> confirmation demoProcess (js ''status'') = Some (JStr (js ''pending''))
   \<and> storedStageStatus (the (demoStore (js ''PO-1''))) (js ''confirmation'') = None
   \<and> fst (handleFileUpload (demoApp []) (demoEnv (1 / 2) TransportFailure) demoStore
            (Some demoFile) (js ''delivery''))
       = [SetUploadingStage (Some (js ''delivery'')),
          UpdateDoc (js ''PO-1'')
            [(js ''delivery.status'', JStr (js ''analyzing'')),
             (js ''delivery.fileName'', JStr (js ''ab.pdf'')),
             (js ''delivery.uploadedAt'', JTimestamp 1700000000 0)],
          UpdateDoc (js ''PO-1'')
            [(js ''delivery.status'', JStr (js ''verified'')),
             (js ''delivery.conflictReason'', JNull),
             (js ''status'', JStr (js ''completed''))],
          SetUploadingStage None]
   \<and> storedStageStatus
        (the (snd (handleFileUpload (demoApp []) (demoEnv (1 / 2) TransportFailure) demoStore
                     (Some demoFile) (js ''delivery'')) (js ''PO-1'')))
        (js ''delivery'')
       = Some (JStr (js ''verified''))"
proof (intro conjI)
  show "selectedProcess (demoApp []) = Some demoProcess"
    by (simp add: selectedProcess_def demoApp_def demoProcess_def)
  show "confirmation demoProcess (js ''status'') = Some (JStr (js ''pending''))"
    by (simp add: demoProcess_def defaultStep_def js_def)
  show "storedStageStatus (the (demoStore (js ''PO-1''))) (js ''confirmation'') = None"
    by (simp add: storedStageStatus_def demoStore_def js_def)
  show "fst (handleFileUpload (demoApp []) (demoEnv (1 / 2) TransportFailure) demoStore
            (Some demoFile) (js ''delivery''))
       = [SetUploadingStage (Some (js ''delivery'')),
          UpdateDoc (js ''PO-1'')
            [(js ''delivery.status'', JStr (js ''analyzing'')),
             (js ''delivery.fileName'', JStr (js ''ab.pdf'')),
             (js ''delivery.uploadedAt'', JTimestamp 1700000000 0)],
          UpdateDoc (js ''PO-1'')
            [(js ''delivery.status'', JStr (js ''verified'')),
             (js ''delivery.conflictReason'', JNull),
             (js ''status'', JStr (js ''completed''))],
          SetUploadingStage None]"
    by (simp add: handleFileUpload_def sanitizeStage_def uploadTry_def updateDoc_def
          webhookUrl_def isConflict_def analyzingWrite_def fallbackWrite_def Let_def
          demo_defs text_defs)
  show "storedStageStatus
        (the (snd (handleFileUpload (demoApp []) (demoEnv (1 / 2) TransportFailure) demoStore
                     (Some demoFile) (js ''delivery'')) (js ''PO-1'')))
        (js ''delivery'')
       = Some (JStr (js ''verified''))"
    by (simp add: handleFileUpload_def sanitizeStage_def uploadTry_def updateDoc_def
          webhookUrl_def isConflict_def applyUpdates_def analyzingWrite_def fallbackWrite_def
          storedStageStatus_def Let_def demo_defs text_defs)
qed

text \<open>
  C1, as the code has it. \<open>buildProcess\<close> copies the stored status field (open when it is
  absent or null) and never derives it from the stages. The combined write of the
  fallback sets the aggregate status from the outcome of the submitted stage alone; the
  process read back after that write follows the precedence rule when the other stage is
  not in conflict and, for a confirmation, the delivery is not verified.
\<close>

theorem aggregate_after_fallback_write:
  assumes sub: "submits a eventFile rawStage stage file sid"
    and url: "webhookUrl a stage = []"
    and doc: "db sid = Some d"
    and acc: "acceptsFirst e" "acceptsSecond e"
    and stored: "snd (handleFileUpload a e db eventFile rawStage) sid = Some d'"
    and built: "buildProcess d' key = Inr p"
    and other:
      "stage = js ''confirmation'' \<longrightarrow>
         delivery p (js ''status'') \<noteq> Some (JStr (js ''conflict'')) \<and>
         delivery p (js ''status'') \<noteq> Some (JStr (js ''verified''))"
      "stage = js ''delivery'' \<longrightarrow>
         confirmation p (js ''status'') \<noteq> Some (JStr (js ''conflict''))"
  shows "status p = aggregateRule p
     \<and> (\<forall>data fallbackId q. buildProcess data fallbackId = Inr q \<longrightarrow>
           status q = coalesce (map_of data (js ''status'')) (JStr (js ''open'')))"
proof -
  let ?c = "isConflict (random e)"
  let ?d1 = "applyUpdates (analyzingWrite e stage file) d"
  let ?d2 = "applyUpdates (fallbackWrite ?c stage) ?d1"
  note stage = submits_stage [OF sub]
  have w1: "updateDoc db sid (analyzingWrite e stage file) (acceptsFirst e) = Some (db(sid \<mapsto> ?d1))"
    using doc acc by (simp add: updateDoc_def)
  have w2: "updateDoc (db(sid \<mapsto> ?d1)) sid (fallbackWrite ?c stage) (acceptsSecond e)
              = Some (db(sid \<mapsto> ?d2))"
    using acc by (simp add: updateDoc_def)
  have "snd (handleFileUpload a e db eventFile rawStage) = db(sid \<mapsto> ?d2)"
    by (simp add: handleFileUpload_submits [OF sub] uploadTry_def w1 w2 url Let_def)
  with stored have d': "d' = ?d2" by simp
  have agg: "status p = JStr (if ?c then js ''conflict''
                  else if stage = js ''delivery'' then js ''completed'' else js ''open'')"
    using buildProcess_fields(1) [OF built] fallback_stored(2) [OF stage, of ?c ?d1]
    by (simp add: d')
  have "mergeStep (coalesce (map_of d' stage) (JObj [])) (js ''status'')
          = Some (JStr (if ?c then js ''conflict'' else js ''verified''))"
    unfolding d' using stage by (intro stored_to_step fallback_stored(1))
  then have step: "(if stage = js ''confirmation'' then confirmation p else delivery p) (js ''status'')
          = Some (JStr (if ?c then js ''conflict'' else js ''verified''))"
    using stage buildProcess_fields(2,3) [OF built] by auto
  have distinct: "js ''confirmation'' \<noteq> js ''delivery''" "js ''conflict'' \<noteq> js ''verified''"
    by (simp_all add: js_def)
  from stage have "status p = aggregateRule p"
  proof
    assume s: "stage = js ''confirmation''"
    with step other(1) agg distinct show ?thesis
      by (simp add: aggregateRule_def)
  next
    assume s: "stage = js ''delivery''"
    with step other(2) agg distinct show ?thesis
      by (simp add: aggregateRule_def)
  qed
  then show ?thesis
    by (simp add: buildProcess_fields(1))
qed

theorem aggregate_after_fallback_write_witness:
  "status (projr (buildProcess
       (the (snd (handleFileUpload (demoApp []) (demoEnv (1 / 2) TransportFailure) demoStore
                    (Some demoFile) (js ''confirmation'')) (js ''PO-1'')))
       (js ''PO-1'')))
   = aggregateRule (projr (buildProcess
       (the (snd (handleFileUpload (demoApp []) (demoEnv (1 / 2) TransportFailure) demoStore
                    (Some demoFile) (js ''confirmation'')) (js ''PO-1'')))
       (js ''PO-1'')))
   \<and> aggregateRule (projr (buildProcess
       (the (snd (handleFileUpload (demoApp []) (demoEnv (1 / 2) TransportFailure) demoStore
                    (Some demoFile) (js ''confirmation'')) (js ''PO-1'')))
       (js ''PO-1'')))
     = JStr (js ''open'')"
proof -
  let ?a = "demoApp []"
  let ?e = "demoEnv (1 / 2) TransportFailure"
  let ?stage = "js ''confirmation''"
  let ?d = "[(js ''supplierName'', JStr (js ''ACME''))]"
  let ?h = "handleFileUpload ?a ?e demoStore (Some demoFile) ?stage"
  have sub: "submits ?a (Some demoFile) ?stage ?stage demoFile (js ''PO-1'')"
    by (simp add: demo_submits)
  have url: "webhookUrl ?a ?stage = []"
    by (simp add: webhookUrl_def demoApp_def)
  have doc: "demoStore (js ''PO-1'') = Some ?d"
    by (simp add: demoStore_def)
  have acc: "acceptsFirst ?e" "acceptsSecond ?e"
    by (simp_all add: demoEnv_def)
  have val: "the (snd ?h (js ''PO-1'')) =
      [(js ''supplierName'', JStr (js ''ACME'')),
       (js ''confirmation'',
          JObj [(js ''status'', JStr (js ''verified'')),
                (js ''fileName'', JStr (js ''ab.pdf'')),
                (js ''uploadedAt'', JTimestamp 1700000000 0),
                (js ''conflictReason'', JNull)]),
       (js ''status'', JStr (js ''open''))]"
    by (simp add: handleFileUpload_def sanitizeStage_def uploadTry_def updateDoc_def
          webhookUrl_def isConflict_def applyUpdates_def analyzingWrite_def fallbackWrite_def
          demo_defs text_defs)
  have stored: "snd ?h (js ''PO-1'') = Some (the (snd ?h (js ''PO-1'')))"
    by (simp add: handleFileUpload_submits [OF sub] uploadTry_def updateDoc_def url doc acc Let_def)
  let ?p = "projr (buildProcess (the (snd ?h (js ''PO-1''))) (js ''PO-1''))"
  have built: "buildProcess (the (snd ?h (js ''PO-1''))) (js ''PO-1'') = Inr ?p"
    unfolding val by (simp add: buildProcess_def js_def)
  have other: "delivery ?p (js ''status'') = Some (JStr (js ''pending''))"
    unfolding val by (simp add: buildProcess_def mergeStep_def defaultStep_def js_def)
  have ne: "js ''pending'' \<noteq> js ''conflict''" "js ''pending'' \<noteq> js ''verified''"
    "js ''confirmation'' \<noteq> js ''delivery''"
    by (simp_all add: js_def)
  have rule: "status ?p = aggregateRule ?p"
    by (rule aggregate_after_fallback_write [OF sub url doc acc stored built, THEN conjunct1])
      (simp_all add: other ne)
  moreover have "status ?p = JStr (js ''open'')"
    unfolding val by (simp add: buildProcess_def js_def)
  ultimately show ?thesis by simp
qed

text \<open>
  C1, as stated, fails: a document stored with status open and a confirmation in
  conflict maps to a process whose status is open, where the rule gives conflict.
\<close>

theorem stored_status_not_recomputed:
  "\<not> isl (buildProcess
       [(js ''status'', JStr (js ''open'')),
        (js ''confirmation'', JObj [(js ''status'', JStr (js ''conflict''))])] (js ''PO-1''))
   \<and> status (projr (buildProcess
       [(js ''status'', JStr (js ''open'')),
        (js ''confirmation'', JObj [(js ''status'', JStr (js ''conflict''))])] (js ''PO-1'')))
      = JStr (js ''open'')
   \<and> aggregateRule (projr (buildProcess
       [(js ''status'', JStr (js ''open'')),
        (js ''confirmation'', JObj [(js ''status'', JStr (js ''conflict''))])] (js ''PO-1'')))
      = JStr (js ''conflict'')"
  by (simp add: buildProcess_def aggregateRule_def mergeStep_def js_def)

end
